theory Spec2Isabelle
  imports Main
begin

section \<open>Python values, option dictionaries and exceptions\<close>

text \<open>
  The task reads its configuration from \<^verbatim>\<open>self.options\<close>, a dictionary from option names to
  Python values. The values that reach the task are \<^verbatim>\<open>None\<close>, booleans, integers, strings
  (everything typed on the command line) and nested dictionaries (\<^verbatim>\<open>vars\<close>,
  \<^verbatim>\<open>data_generation_options\<close>). Floats are left out.
\<close>

datatype pyval =
    PNone
  | PBool bool
  | PInt int
  | PStr string
  | PDict "(string \<times> pyval) list"

type_synonym pydict = "string \<rightharpoonup> pyval"

text \<open>Python truthiness, as used by \<^verbatim>\<open>if x:\<close>, \<^verbatim>\<open>not x\<close>, \<^verbatim>\<open>x and y\<close>, \<^verbatim>\<open>x or y\<close>.\<close>

fun truthy :: "pyval \<Rightarrow> bool" where
  "truthy PNone = False"
| "truthy (PBool b) = b"
| "truthy (PInt n) = (n \<noteq> 0)"
| "truthy (PStr s) = (s \<noteq> [])"
| "truthy (PDict d) = (d \<noteq> [])"

text \<open>\<^verbatim>\<open>d.get(k)\<close> and \<^verbatim>\<open>d.get(k, None)\<close>: the value, or \<^verbatim>\<open>None\<close> for a missing key.\<close>

definition dict_get :: "pydict \<Rightarrow> string \<Rightarrow> pyval" where
  "dict_get d k = (case d k of None \<Rightarrow> PNone | Some v \<Rightarrow> v)"

text \<open>
  The exceptions. \<^verbatim>\<open>TaskOptionsError\<close> is the configuration error of the task; its message
  is kept as a structured reason. \<^verbatim>\<open>Raised\<close> stands for any exception class of a
  collaborator (the database layer, the generation task, the load task, the importer).
\<close>

datatype reason =
    Mapping_not_found string
  | Batch_size_not_positive
  | Database_has_tables pyval "string list"

datatype error =
    TaskOptionsError reason
  | KeyError string
  | ValueError
  | TypeError
  | Raised string

definition is_TaskOptionsError :: "error \<Rightarrow> bool" where
  "is_TaskOptionsError e = (case e of TaskOptionsError r \<Rightarrow> True | _ \<Rightarrow> False)"

subsection \<open>The builtin \<^verbatim>\<open>int()\<close>\<close>

text \<open>
  \<^verbatim>\<open>int(x)\<close> returns an integer unchanged, maps a boolean to 0 or 1, raises
  \<^verbatim>\<open>TypeError\<close> on \<^verbatim>\<open>None\<close> and on a dictionary, and parses a string: surrounding
  white space (space, tab, line feed, vertical tab, form feed, carriage return) is
  stripped, then an optional sign and a non-empty run of decimal digits
  follow, where single underscores may separate digits; anything else raises
  \<^verbatim>\<open>ValueError\<close>. Strings are taken to be ASCII.
\<close>

definition is_space :: "char \<Rightarrow> bool" where
  "is_space c = (c \<in> set [CHR 0x20, CHR 0x09, CHR 0x0A, CHR 0x0B, CHR 0x0C, CHR 0x0D])"

definition is_digit :: "char \<Rightarrow> bool" where
  "is_digit c = (c \<in> set ''0123456789'')"

definition digit_value :: "char \<Rightarrow> nat" where
  "digit_value c = of_char c - 48"

fun digits_value :: "nat \<Rightarrow> string \<Rightarrow> nat option" where
  "digits_value acc [] = Some acc"
| "digits_value acc [c] = (if is_digit c then Some (10 * acc + digit_value c) else None)"
| "digits_value acc (c # d # cs) =
     (if is_digit c then digits_value (10 * acc + digit_value c) (d # cs)
      else if c = CHR ''_'' \<and> is_digit d then digits_value acc (d # cs)
      else None)"

definition parse_nat :: "string \<Rightarrow> nat option" where
  "parse_nat s = (case s of [] \<Rightarrow> None
                  | c # cs \<Rightarrow> if is_digit c then digits_value 0 s else None)"

definition strip :: "string \<Rightarrow> string" where
  "strip s = rev (dropWhile is_space (rev (dropWhile is_space s)))"

definition int_of_string :: "string \<Rightarrow> error + int" where
  "int_of_string s =
     (case strip s of
        [] \<Rightarrow> Inl ValueError
      | c # cs \<Rightarrow>
          (case (if c = CHR ''-'' \<or> c = CHR ''+'' then parse_nat cs else parse_nat (c # cs)) of
             None \<Rightarrow> Inl ValueError
           | Some n \<Rightarrow> Inr (if c = CHR ''-'' then - int n else int n)))"

fun py_int :: "pyval \<Rightarrow> error + int" where
  "py_int PNone = Inl TypeError"
| "py_int (PBool b) = Inr (if b then 1 else 0)"
| "py_int (PInt n) = Inr n"
| "py_int (PStr s) = int_of_string s"
| "py_int (PDict d) = Inl TypeError"

text \<open>\<^verbatim>\<open>s.endswith(t)\<close>.\<close>

definition endswith :: "string \<Rightarrow> string \<Rightarrow> bool" where
  "endswith s t = (length t \<le> length s \<and> drop (length s - length t) s = t)"

section \<open>The world outside the task\<close>

text \<open>
  The staging stores are kept by locator: \<open>tables w u\<close> lists the tables (name and
  content) of the store that \<open>u\<close> locates, and is empty for a store that does not exist
  yet (SQLite creates the file on first connection). \<open>files w\<close> is the set of paths that
  exist on disk.
\<close>

record 'r world =
  tables :: "pyval \<Rightarrow> (string \<times> 'r) list"
  files :: "string set"

text \<open>
  A sub-task (the generation task, the load task) is constructed from an option
  dictionary and called; it changes the world as it likes and may raise, in which case
  the world it leaves behind is kept. The dictionary is handed over by value: a sub-task
  does not write into the caller's dictionary.
\<close>

type_synonym 'r task = "pydict \<Rightarrow> 'r world \<Rightarrow> error option \<times> 'r world"

text \<open>
  What the task does to its collaborators is recorded as a trace: each invocation of the
  generation step and of the load step with the option dictionary it was given and the
  world it was started in, and each call of \<^verbatim>\<open>metadata.drop_all\<close> with the store and the
  names of the tables to drop.
\<close>

datatype 'r event =
    Datagen pydict "'r world"
  | Dataload pydict "'r world"
  | DropAll pyval "string list"

type_synonym 'r result = "error option \<times> 'r world \<times> 'r event list"

text \<open>
  The library functions and collaborators the module calls are parameters:
  \<^item> \<open>abspath\<close>: \<^verbatim>\<open>os.path.abspath\<close>;
  \<^item> \<open>import_global\<close>: \<^verbatim>\<open>cumulusci.core.utils.import_global\<close>, resolving the class path
    of the generation task, or raising;
  \<^item> \<open>load_data\<close>: the \<^verbatim>\<open>LoadData\<close> task;
  \<^item> \<open>engine_error\<close>: the exception, if any, with which \<^verbatim>\<open>create_engine\<close> or
    \<^verbatim>\<open>metadata.reflect\<close> fails on a locator;
  \<^item> \<open>drop_error\<close>: the exception, if any, with which \<^verbatim>\<open>metadata.drop_all\<close> fails;
  \<^item> \<open>mkdtemp\<close>, \<open>rmtree\<close>: creation and removal of the directory of
    \<^verbatim>\<open>TemporaryDirectory\<close>;
  \<^item> \<open>mkstemp_name\<close>: the name \<^verbatim>\<open>NamedTemporaryFile\<close> picks for a given suffix;
  \<^item> \<open>path_join\<close>: \<^verbatim>\<open>str(Path(d) / f)\<close>.
\<close>

record 'r env =
  abspath :: "string \<Rightarrow> string"
  import_global :: "pyval \<Rightarrow> error + 'r task"
  load_data :: "'r task"
  engine_error :: "pyval \<Rightarrow> 'r world \<Rightarrow> error option"
  drop_error :: "pyval \<Rightarrow> string list \<Rightarrow> 'r world \<Rightarrow> error option"
  mkdtemp :: "'r world \<Rightarrow> string \<times> 'r world"
  rmtree :: "string \<Rightarrow> 'r world \<Rightarrow> 'r world"
  mkstemp_name :: "string \<Rightarrow> 'r world \<Rightarrow> string"
  path_join :: "string \<Rightarrow> string \<Rightarrow> string"

text \<open>
  The context managers. \<^verbatim>\<open>with NamedTemporaryFile(suffix=s) as f: body\<close> creates the file,
  runs the body and deletes the file when the block is left, normally or by an
  exception. \<^verbatim>\<open>with TemporaryDirectory() as d: body\<close> does the same with a directory.
\<close>

definition named_temporary_file ::
  "'r env \<Rightarrow> string \<Rightarrow> (string \<Rightarrow> 'r world \<Rightarrow> 'r result) \<Rightarrow> 'r world \<Rightarrow> 'r result" where
  "named_temporary_file env suffix body w =
     (let name = mkstemp_name env suffix w in
      case body name (w\<lparr>files := insert name (files w)\<rparr>) of
        (r, w', t) \<Rightarrow> (r, w'\<lparr>files := files w' - {name}\<rparr>, t))"

definition temporary_directory ::
  "'r env \<Rightarrow> (string \<Rightarrow> 'r world \<Rightarrow> 'r result) \<Rightarrow> 'r world \<Rightarrow> 'r result" where
  "temporary_directory env body w =
     (case mkdtemp env w of
        (name, w1) \<Rightarrow> (case body name w1 of (r, w2, t) \<Rightarrow> (r, rmtree env name w2, t)))"

text \<open>
  \<^verbatim>\<open>metadata.drop_all(tables=...)\<close> on the store \<open>u\<close>: the named tables are removed from
  the store, or the call raises and the store stays as it was.
\<close>

definition drop_all :: "'r env \<Rightarrow> pyval \<Rightarrow> string list \<Rightarrow> 'r world \<Rightarrow> 'r result" where
  "drop_all env u names w =
     (case drop_error env u names w of
        Some e \<Rightarrow> (Some e, w, [DropAll u names])
      | None \<Rightarrow>
          (None,
           w\<lparr>tables := (tables w)(u := filter (\<lambda>(n, t). n \<notin> set names) (tables w u))\<rparr>,
           [DropAll u names]))"

section \<open>The task \<^verbatim>\<open>GenerateAndLoadData\<close>\<close>

text \<open>The attributes \<^verbatim>\<open>_init_options\<close> sets on the task.\<close>

record 'r generate_and_load_data =
  options :: pydict
  mapping_file :: pyval
  database_url :: pyval
  num_records :: int
  batch_size :: int
  class_path :: pyval
  data_generation_task :: "'r task"
  debug_dir :: pyval

text \<open>
  \<^verbatim>\<open>_setup_engine\<close>: connect and reflect. The result pairs the engine (the locator it is
  bound to) with the reflected tables.
\<close>

definition setup_engine ::
  "'r env \<Rightarrow> pyval \<Rightarrow> 'r world \<Rightarrow> error + (pyval \<times> (string \<times> 'r) list)" where
  "setup_engine env database_url' w =
     (case engine_error env database_url' w of
        Some e \<Rightarrow> Inl e
      | None \<Rightarrow> Inr (database_url', tables w database_url'))"

text \<open>
  \<^verbatim>\<open>_init_options\<close>, lines 92 to 122. \<open>opts\<close> is \<^verbatim>\<open>self.options\<close> as the base class's
  \<^verbatim>\<open>_init_options\<close> leaves it. The steps run in the order of the source, and the first
  exception ends the function.
\<close>

definition init_options ::
  "'r env \<Rightarrow> pydict \<Rightarrow> 'r world \<Rightarrow> error + 'r generate_and_load_data" where
  "init_options env opts w =
    (case (let mapping_file' = dict_get opts ''mapping'' in
           if truthy mapping_file' then
             (case mapping_file' of
                PStr m \<Rightarrow>
                  (let p = abspath env m in
                   if p \<notin> files w then Inl (TaskOptionsError (Mapping_not_found p))
                   else Inr (PStr p))
              | _ \<Rightarrow> Inl TypeError)
           else Inr PNone) of
       Inl e \<Rightarrow> Inl e
     | Inr mapping_file' \<Rightarrow>
    (case (case opts ''num_records'' of
             None \<Rightarrow> Inl (KeyError ''num_records'')
           | Some v \<Rightarrow> py_int v) of
       Inl e \<Rightarrow> Inl e
     | Inr num_records' \<Rightarrow>
    (case (case opts ''batch_size'' of
             None \<Rightarrow> Inr num_records'
           | Some v \<Rightarrow> py_int v) of
       Inl e \<Rightarrow> Inl e
     | Inr batch_size' \<Rightarrow>
    if batch_size' \<le> 0 then Inl (TaskOptionsError Batch_size_not_positive)
    else
    (case import_global env (dict_get opts ''data_generation_task'') of
       Inl e \<Rightarrow> Inl e
     | Inr task \<Rightarrow>
    (let self = \<lparr>options = opts,
                 mapping_file = mapping_file',
                 database_url = dict_get opts ''database_url'',
                 num_records = num_records',
                 batch_size = batch_size',
                 class_path = dict_get opts ''data_generation_task'',
                 data_generation_task = task,
                 debug_dir = dict_get opts ''debug_dir''\<rparr>
     in
     if truthy (database_url self) then
       (case setup_engine env (database_url self) w of
          Inl e \<Rightarrow> Inl e
        | Inr (engine, tbls) \<Rightarrow>
            if length tbls \<noteq> 0 \<and> \<not> truthy (dict_get opts ''replace_database'')
            then Inl (TaskOptionsError (Database_has_tables (database_url self) (map fst tbls)))
            else Inr self)
     else Inr self)))))"

text \<open>\<^verbatim>\<open>_cleanup_object_tables\<close>, lines 195 to 204.\<close>

definition cleanup_object_tables ::
  "'r env \<Rightarrow> pyval \<times> (string \<times> 'r) list \<Rightarrow> 'r world \<Rightarrow> 'r result" where
  "cleanup_object_tables env md w =
     (case md of
        (engine, tbls) \<Rightarrow>
          (let tables_to_drop =
                 filter (\<lambda>(tablename, table). \<not> endswith tablename ''sf_ids'') tbls
           in if tables_to_drop \<noteq> [] then drop_all env engine (map fst tables_to_drop) w
              else (None, w, [])))"

text \<open>
  \<^verbatim>\<open>_datagen\<close> and \<^verbatim>\<open>_dataload\<close>, lines 141 to 158: construct the sub-task from the
  options and call it.
\<close>

definition datagen :: "'r generate_and_load_data \<Rightarrow> pydict \<Rightarrow> 'r world \<Rightarrow> 'r result" where
  "datagen self subtask_options w =
     (case data_generation_task self subtask_options w of
        (r, w') \<Rightarrow> (r, w', [Datagen subtask_options w]))"

definition dataload :: "'r env \<Rightarrow> pydict \<Rightarrow> 'r world \<Rightarrow> 'r result" where
  "dataload env subtask_options w =
     (case load_data env subtask_options w of
        (r, w') \<Rightarrow> (r, w', [Dataload subtask_options w]))"

text \<open>
  \<^verbatim>\<open>_generate_batch\<close>, lines 160 to 185. \<^verbatim>\<open>Path(tempdir)\<close> raises \<^verbatim>\<open>TypeError\<close> when
  \<^verbatim>\<open>tempdir\<close> is not a string.
\<close>

definition generate_batch ::
  "'r env \<Rightarrow> 'r generate_and_load_data \<Rightarrow> pyval \<Rightarrow> pyval \<Rightarrow> pyval \<Rightarrow> int \<Rightarrow> int \<Rightarrow> 'r world
     \<Rightarrow> 'r result" where
  "generate_batch env self database_url' tempdir mapping_file' batch_size' index w =
    (case (if \<not> truthy database_url' then
             (case tempdir of
                PStr d \<Rightarrow> Inr (PStr (''sqlite:///'' @ path_join env d ''generated_data.db''))
              | _ \<Rightarrow> Inl TypeError)
           else Inr database_url') of
       Inl e \<Rightarrow> (Some e, w, [])
     | Inr database_url'' \<Rightarrow>
    (case setup_engine env database_url'' w of
       Inl e \<Rightarrow> (Some e, w, [])
     | Inr md \<Rightarrow>
    (case cleanup_object_tables env md w of
       (Some e, w1, t1) \<Rightarrow> (Some e, w1, t1)
     | (None, w1, t1) \<Rightarrow>
    (let subtask_options =
           (options self)
             (''mapping'' \<mapsto> mapping_file',
              ''reset_oids'' \<mapsto> PBool False,
              ''database_url'' \<mapsto> database_url'',
              ''num_records'' \<mapsto> PInt batch_size',
              ''current_batch_number'' \<mapsto> PInt index,
              ''working_directory'' \<mapsto> tempdir,
              ''reset_oids'' \<mapsto> PBool False)
     in
     case named_temporary_file env ''_mapping.yml''
            (\<lambda>generated_mapping_file w2.
               (let subtask_options' =
                      subtask_options(''generate_mapping_file'' \<mapsto> PStr generated_mapping_file)
                in
                case datagen self subtask_options' w2 of
                  (Some e, w3, t3) \<Rightarrow> (Some e, w3, t3)
                | (None, w3, t3) \<Rightarrow>
                    (let subtask_options'' =
                           (if \<not> truthy (dict_get subtask_options' ''mapping'')
                            then subtask_options'(''mapping'' \<mapsto> PStr generated_mapping_file)
                            else subtask_options')
                     in
                     case dataload env subtask_options'' w3 of
                       (r, w4, t4) \<Rightarrow> (r, w4, t3 @ t4))))
            w1 of
       (r, w5, t5) \<Rightarrow> (r, w5, t1 @ t5)))))"

text \<open>
  Modelled from the spec: \<^verbatim>\<open>generate_batches\<close> of \<^verbatim>\<open>cumulusci.tasks.bulkdata.utils\<close>, which
  is not among the sources. The spec's words: given total N and batch size B, produce
  batches of size B repeated floor(N/B) times, followed by one final batch of size
  N mod B if non-zero, with indices 0, 1, 2, and so on.
\<close>

definition generate_batches :: "int \<Rightarrow> int \<Rightarrow> (int \<times> int) list" where
  "generate_batches N B =
     (let sizes = replicate (nat (N div B)) B @ (if N mod B \<noteq> 0 then [N mod B] else [])
      in zip sizes (map int [0..<length sizes]))"

text \<open>
  The \<^verbatim>\<open>for\<close> loop of \<^verbatim>\<open>_run_task\<close>, lines 126 to 139, over the batches that are left. An
  exception of a batch ends the loop. The logging call is left out.
\<close>

fun batch_loop ::
  "'r env \<Rightarrow> 'r generate_and_load_data \<Rightarrow> string \<Rightarrow> (int \<times> int) list \<Rightarrow> 'r world \<Rightarrow> 'r result"
  where
  "batch_loop env self tempdir [] w = (None, w, [])"
| "batch_loop env self tempdir ((current_batch_size, index) # rest) w =
     (case generate_batch env self
             (database_url self)
             (if truthy (debug_dir self) then debug_dir self else PStr tempdir)
             (mapping_file self)
             current_batch_size
             index w of
        (Some e, w', t) \<Rightarrow> (Some e, w', t)
      | (None, w', t) \<Rightarrow>
          (case batch_loop env self tempdir rest w' of
             (r, w'', t') \<Rightarrow> (r, w'', t @ t')))"

text \<open>\<^verbatim>\<open>_run_task\<close>, lines 124 to 139.\<close>

definition run_task :: "'r env \<Rightarrow> 'r generate_and_load_data \<Rightarrow> 'r world \<Rightarrow> 'r result" where
  "run_task env self w =
     temporary_directory env
       (\<lambda>tempdir. batch_loop env self tempdir
                    (generate_batches (num_records self) (batch_size self)))
       w"

text \<open>
  Modelled from the spec: the life cycle of a task in the task runner
  (\<^verbatim>\<open>BaseSalesforceApiTask\<close> and its base class, which are not among the sources). The
  spec's words: the configuration is validated eagerly before any batch runs; a
  configuration error is raised during setup, before any batch runs. Constructing the
  task runs \<^verbatim>\<open>_init_options\<close>; only a task that was constructed is called, which runs
  \<^verbatim>\<open>_run_task\<close>.
\<close>

definition construct_and_call :: "'r env \<Rightarrow> pydict \<Rightarrow> 'r world \<Rightarrow> 'r result" where
  "construct_and_call env opts w =
     (case init_options env opts w of
        Inl e \<Rightarrow> (Some e, w, [])
      | Inr self \<Rightarrow> run_task env self w)"

section \<open>Derived notions\<close>

text \<open>
  Names for parts of the functions above, used to state and prove their properties:
  the names of the object tables among reflected tables (those
  \<^verbatim>\<open>_cleanup_object_tables\<close> selects), a store with its object tables removed, the
  locator lines 162 to 164 resolve, the option dictionary lines 168 to 181 build, and
  the check of the mapping file in lines 94 to 100.
\<close>

definition object_names :: "(string \<times> 'r) list \<Rightarrow> string list" where
  "object_names tbls = map fst (filter (\<lambda>(n, t). \<not> endswith n ''sf_ids'') tbls)"

definition cleaned :: "'r world \<Rightarrow> pyval \<Rightarrow> 'r world" where
  "cleaned w u =
     w\<lparr>tables := (tables w)(u := filter (\<lambda>(n, t). endswith n ''sf_ids'') (tables w u))\<rparr>"

definition resolve_url :: "'r env \<Rightarrow> pyval \<Rightarrow> pyval \<Rightarrow> error + pyval" where
  "resolve_url env du td =
     (if \<not> truthy du then
        (case td of
           PStr d \<Rightarrow> Inr (PStr (''sqlite:///'' @ path_join env d ''generated_data.db''))
         | _ \<Rightarrow> Inl TypeError)
      else Inr du)"

definition batch_options ::
  "pydict \<Rightarrow> pyval \<Rightarrow> pyval \<Rightarrow> int \<Rightarrow> int \<Rightarrow> pyval \<Rightarrow> string \<Rightarrow> pydict" where
  "batch_options opts mf u s i td name =
     opts(''mapping'' \<mapsto> mf, ''reset_oids'' \<mapsto> PBool False, ''database_url'' \<mapsto> u,
          ''num_records'' \<mapsto> PInt s, ''current_batch_number'' \<mapsto> PInt i,
          ''working_directory'' \<mapsto> td, ''reset_oids'' \<mapsto> PBool False,
          ''generate_mapping_file'' \<mapsto> PStr name)"

text \<open>
  The invocations of the generation step in a trace, and those of the load step, each
  by the \<^verbatim>\<open>num_records\<close> and \<^verbatim>\<open>current_batch_number\<close> options it was given, in the order
  of the trace.
\<close>

definition generation_calls :: "'r event list \<Rightarrow> (pyval \<times> pyval) list" where
  "generation_calls t =
     concat (map (\<lambda>ev. case ev of
                          Datagen opts w \<Rightarrow>
                            [(dict_get opts ''num_records'', dict_get opts ''current_batch_number'')]
                        | Dataload opts w \<Rightarrow> []
                        | DropAll u names \<Rightarrow> []) t)"

definition load_calls :: "'r event list \<Rightarrow> (pyval \<times> pyval) list" where
  "load_calls t =
     concat (map (\<lambda>ev. case ev of
                          Datagen opts w \<Rightarrow> []
                        | Dataload opts w \<Rightarrow>
                            [(dict_get opts ''num_records'', dict_get opts ''current_batch_number'')]
                        | DropAll u names \<Rightarrow> []) t)"

definition mapping_checked :: "'r env \<Rightarrow> pydict \<Rightarrow> 'r world \<Rightarrow> error + pyval" where
  "mapping_checked env opts w =
     (let mapping_file' = dict_get opts ''mapping'' in
      if truthy mapping_file' then
        (case mapping_file' of
           PStr m \<Rightarrow>
             (let p = abspath env m in
              if p \<notin> files w then Inl (TaskOptionsError (Mapping_not_found p))
              else Inr (PStr p))
         | _ \<Rightarrow> Inl TypeError)
      else Inr PNone)"

text \<open>
  Lines 93 to 111 of \<^verbatim>\<open>_init_options\<close>: everything before the check of the database,
  with the attributes set so far.
\<close>

definition init_attributes ::
  "'r env \<Rightarrow> pydict \<Rightarrow> 'r world \<Rightarrow> error + 'r generate_and_load_data" where
  "init_attributes env opts w =
    (case mapping_checked env opts w of
       Inl e \<Rightarrow> Inl e
     | Inr mapping_file' \<Rightarrow>
    (case (case opts ''num_records'' of
             None \<Rightarrow> Inl (KeyError ''num_records'')
           | Some v \<Rightarrow> py_int v) of
       Inl e \<Rightarrow> Inl e
     | Inr num_records' \<Rightarrow>
    (case (case opts ''batch_size'' of
             None \<Rightarrow> Inr num_records'
           | Some v \<Rightarrow> py_int v) of
       Inl e \<Rightarrow> Inl e
     | Inr batch_size' \<Rightarrow>
    if batch_size' \<le> 0 then Inl (TaskOptionsError Batch_size_not_positive)
    else
    (case import_global env (dict_get opts ''data_generation_task'') of
       Inl e \<Rightarrow> Inl e
     | Inr task \<Rightarrow>
         Inr \<lparr>options = opts,
              mapping_file = mapping_file',
              database_url = dict_get opts ''database_url'',
              num_records = num_records',
              batch_size = batch_size',
              class_path = dict_get opts ''data_generation_task'',
              data_generation_task = task,
              debug_dir = dict_get opts ''debug_dir''\<rparr>))))"

section \<open>A sample configuration\<close>

text \<open>
  A generation task that writes one table \<^verbatim>\<open>Account\<close> with as many rows as it is asked
  for, and fails in the batch whose number the pass-through option \<^verbatim>\<open>fail_at\<close> names; a
  load task that moves the row counts of the object tables into \<^verbatim>\<open>Account_sf_ids\<close>; and
  a world with one persistent store that holds an object table and an ID-mapping table.
  Tables are represented by their row counts.
\<close>

definition ex_generator :: "nat task" where
  "ex_generator opts w =
     (if opts ''current_batch_number'' = opts ''fail_at''
      then (Some (Raised ''GeneratorError''), w)
      else (case opts ''num_records'' of
              Some (PInt n) \<Rightarrow>
                (None, w\<lparr>tables := (tables w)(dict_get opts ''database_url'' :=
                           (''Account'', nat n) # tables w (dict_get opts ''database_url''))\<rparr>)
            | _ \<Rightarrow> (Some TypeError, w)))"

definition ex_loader :: "nat task" where
  "ex_loader opts w =
     (let u = dict_get opts ''database_url'';
          loaded = sum_list (map snd (filter (\<lambda>(n, t). \<not> endswith n ''sf_ids'') (tables w u)));
          old = sum_list (map snd (filter (\<lambda>(n, t). endswith n ''sf_ids'') (tables w u)))
      in (None, w\<lparr>tables := (tables w)(u :=
                     filter (\<lambda>(n, t). \<not> endswith n ''sf_ids'') (tables w u)
                       @ [(''Account_sf_ids'', old + loaded)])\<rparr>))"

definition ex_env :: "nat env" where
  "ex_env =
     \<lparr>abspath = (\<lambda>p. ''/cwd/'' @ p),
      import_global = (\<lambda>v. if v = PStr ''datagen.Accounts'' then Inr ex_generator
                             else Inl (Raised ''ImportError'')),
      load_data = ex_loader,
      engine_error = (\<lambda>u w. if u = PStr ''nodriver://'' then Some (Raised ''NoSuchModuleError'')
                              else None),
      drop_error = (\<lambda>u names w. None),
      mkdtemp = (\<lambda>w. (''/tmp/run'', w\<lparr>files := insert ''/tmp/run'' (files w)\<rparr>)),
      rmtree = (\<lambda>d w. w\<lparr>files := files w - {d},
                         tables := (tables w)(PStr (''sqlite:///'' @ d @ ''/generated_data.db'') := [])\<rparr>),
      mkstemp_name = (\<lambda>suffix w. ''/tmp/scratch'' @ suffix),
      path_join = (\<lambda>d f. d @ ''/'' @ f)\<rparr>"

definition ex_world :: "nat world" where
  "ex_world =
     \<lparr>tables = (\<lambda>u. if u = PStr ''sqlite:///kept.db''
                      then [(''Contact'', 7), (''Contact_sf_ids'', 7)]
                      else if u = PStr ''sqlite:///ids.db'' then [(''Contact_sf_ids'', 7)]
                      else []),
      files = {''/cwd/mapping.yml''}\<rparr>"

definition ex_options :: pydict where
  "ex_options = [''num_records'' \<mapsto> PStr ''3'', ''batch_size'' \<mapsto> PInt 2,
                 ''data_generation_task'' \<mapsto> PStr ''datagen.Accounts'']"

definition ex_self :: "nat generate_and_load_data" where
  "ex_self =
     \<lparr>options = ex_options, mapping_file = PNone, database_url = PNone, num_records = 3,
      batch_size = 2, class_path = PStr ''datagen.Accounts'',
      data_generation_task = ex_generator, debug_dir = PNone\<rparr>"

section \<open>Partitioning into batches\<close>

lemma map_fst_generate_batches:
  "map fst (generate_batches N B) =
     replicate (nat (N div B)) B @ (if N mod B \<noteq> 0 then [N mod B] else [])"
  by (simp add: generate_batches_def Let_def)

lemma map_snd_generate_batches:
  "map snd (generate_batches N B) = map int [0..<length (generate_batches N B)]"
  by (simp add: generate_batches_def Let_def)

lemma sum_generate_batches:
  assumes "0 \<le> N" "0 < B"
  shows "sum_list (map fst (generate_batches N B)) = N"
proof -
  have q: "0 \<le> N div B" using assms by (simp add: pos_imp_zdiv_nonneg_iff)
  have "sum_list (map fst (generate_batches N B)) = int (nat (N div B)) * B + N mod B"
    by (simp add: map_fst_generate_batches sum_list_replicate)
  also have "\<dots> = N" using q by (simp add: mult.commute)
  finally show ?thesis .
qed

lemma sizes_generate_batches:
  assumes "0 < B" "s \<in> set (map fst (generate_batches N B))"
  shows "0 < s \<and> s \<le> B"
proof -
  have m: "0 \<le> N mod B" "N mod B < B" using assms(1) by simp_all
  from assms(2) have "s = B \<or> (N mod B \<noteq> 0 \<and> s = N mod B)"
    by (auto simp: map_fst_generate_batches split: if_splits)
  then show ?thesis using m assms(1) by arith
qed

lemma butlast_generate_batches:
  assumes "s \<in> set (butlast (map fst (generate_batches N B)))"
  shows "s = B"
  using assms
  by (auto simp: map_fst_generate_batches butlast_append split: if_splits dest: in_set_butlastD)

lemma generate_batches_zero: "generate_batches 0 B = []"
  by (simp add: generate_batches_def)

lemma run_task_eq:
  "run_task env self w =
     (case batch_loop env self (fst (mkdtemp env w))
             (generate_batches (num_records self) (batch_size self)) (snd (mkdtemp env w)) of
        (r, w2, t) \<Rightarrow> (r, rmtree env (fst (mkdtemp env w)) w2, t))"
  by (simp add: run_task_def temporary_directory_def split: prod.splits)

lemma ex_generate_batches: "generate_batches 3 2 = [(2, 0), (1, 1)]"
  by (simp add: generate_batches_def Let_def upt_rec numeral_2_eq_2)

section \<open>One batch\<close>

text \<open>
  \<^verbatim>\<open>_cleanup_object_tables\<close> and \<^verbatim>\<open>_generate_batch\<close> in a flat form: the outcome of a
  batch by the step that ends it.
\<close>

lemma filter_object_names:
  "filter (\<lambda>(n, t). n \<notin> set (object_names tbls)) tbls = filter (\<lambda>(n, t). endswith n ''sf_ids'') tbls"
  unfolding object_names_def
  by (rule filter_cong) (auto simp: image_iff)

lemma cleaned_triv: "object_names (tables w u) = [] \<Longrightarrow> cleaned w u = w"
proof -
  assume "object_names (tables w u) = []"
  then have "filter (\<lambda>(n, t). endswith n ''sf_ids'') (tables w u) = tables w u"
    by (auto simp: object_names_def filter_empty_conv filter_id_conv)
  then show ?thesis by (simp add: cleaned_def)
qed

lemma cleanup_object_tables_eq:
  "cleanup_object_tables env (u, tables w u) w =
     (if object_names (tables w u) = [] then (None, cleaned w u, [])
      else (case drop_error env u (object_names (tables w u)) w of
              Some e \<Rightarrow> (Some e, w, [DropAll u (object_names (tables w u))])
            | None \<Rightarrow> (None, cleaned w u, [DropAll u (object_names (tables w u))])))"
proof (cases "object_names (tables w u) = []")
  case True
  then show ?thesis
    by (simp add: cleanup_object_tables_def cleaned_triv) (simp add: object_names_def)
next
  case False
  then have ne: "filter (\<lambda>(n, t). \<not> endswith n ''sf_ids'') (tables w u) \<noteq> []"
    by (simp add: object_names_def)
  have "filter (\<lambda>(n, t). n \<notin> set (object_names (tables w u))) (tables w u)
          = filter (\<lambda>(n, t). endswith n ''sf_ids'') (tables w u)"
    by (rule filter_object_names)
  then show ?thesis using False ne
    by (simp add: cleanup_object_tables_def drop_all_def cleaned_def object_names_def
             split: option.splits)
qed

lemma generate_batch_eq:
  "generate_batch env self du td mf s i w =
    (case resolve_url env du td of
       Inl e \<Rightarrow> (Some e, w, [])
     | Inr u \<Rightarrow>
    (case engine_error env u w of
       Some e \<Rightarrow> (Some e, w, [])
     | None \<Rightarrow>
    (let names = object_names (tables w u);
         drops = (if names = [] then [] else [DropAll u names])
     in
     case (if names = [] then None else drop_error env u names w) of
       Some e \<Rightarrow> (Some e, w, drops)
     | None \<Rightarrow>
    (let wc = cleaned w u;
         name = mkstemp_name env ''_mapping.yml'' wc;
         wg = wc\<lparr>files := insert name (files wc)\<rparr>;
         go = batch_options (options self) mf u s i td name
     in
     case data_generation_task self go wg of
       (Some e, wg') \<Rightarrow> (Some e, wg'\<lparr>files := files wg' - {name}\<rparr>, drops @ [Datagen go wg])
     | (None, wl) \<Rightarrow>
         (let lo = (if \<not> truthy mf then go(''mapping'' \<mapsto> PStr name) else go)
          in case load_data env lo wl of
               (r, wl') \<Rightarrow>
                 (r, wl'\<lparr>files := files wl' - {name}\<rparr>,
                  drops @ [Datagen go wg, Dataload lo wl]))))))"
  unfolding generate_batch_def resolve_url_def[symmetric]
  by (simp add: setup_engine_def cleanup_object_tables_eq named_temporary_file_def
        datagen_def dataload_def batch_options_def dict_get_def Let_def
      split: sum.splits option.splits prod.splits)


lemma generate_batch_Datagen:
  assumes "generate_batch env self du td mf s i w = (r, w', t)"
      and "Datagen opts wg \<in> set t"
  shows "\<exists>u name. resolve_url env du td = Inr u \<and> engine_error env u w = None
           \<and> name = mkstemp_name env ''_mapping.yml'' (cleaned w u)
           \<and> opts = batch_options (options self) mf u s i td name
           \<and> wg = (cleaned w u)\<lparr>files := insert name (files (cleaned w u))\<rparr>
           \<and> name \<notin> files w'
           \<and> (r, w') = (case data_generation_task self opts wg of
                          (Some e, wg') \<Rightarrow> (Some e, wg'\<lparr>files := files wg' - {name}\<rparr>)
                        | (None, wl) \<Rightarrow>
                            (case load_data env
                                    (if \<not> truthy mf then opts(''mapping'' \<mapsto> PStr name) else opts) wl of
                               (r, wl') \<Rightarrow> (r, wl'\<lparr>files := files wl' - {name}\<rparr>)))"
  using assms
  by (auto simp: generate_batch_eq Let_def split: sum.splits option.splits prod.splits if_splits)

lemma generate_batch_Dataload:
  assumes "generate_batch env self du td mf s i w = (r, w', t)"
      and "Dataload lo wl \<in> set t"
  shows "\<exists>go wg name wl'. Datagen go wg \<in> set t
           \<and> go ''generate_mapping_file'' = Some (PStr name)
           \<and> lo = (if \<not> truthy mf then go(''mapping'' \<mapsto> PStr name) else go)
           \<and> data_generation_task self go wg = (None, wl)
           \<and> load_data env lo wl = (r, wl')
           \<and> w' = wl'\<lparr>files := files wl' - {name}\<rparr>"
  using assms
  by (auto simp: generate_batch_eq Let_def batch_options_def
           split: sum.splits option.splits prod.splits if_splits)

lemma generate_batch_DropAll:
  assumes "generate_batch env self du td mf s i w = (r, w', t)"
      and "DropAll u names \<in> set t"
  shows "resolve_url env du td = Inr u \<and> engine_error env u w = None
           \<and> names = object_names (tables w u) \<and> names \<noteq> []
           \<and> (\<forall>e. drop_error env u names w = Some e \<longrightarrow> r = Some e \<and> w' = w \<and> t = [DropAll u names])"
  using assms
  by (auto simp: generate_batch_eq Let_def split: sum.splits option.splits prod.splits if_splits)

lemma generate_batch_engine_error:
  assumes "resolve_url env du td = Inr u" "engine_error env u w = Some e"
  shows "generate_batch env self du td mf s i w = (Some e, w, [])"
  using assms by (simp add: generate_batch_eq)

lemma generate_batch_Datagen_error:
  assumes "generate_batch env self du td mf s i w = (r, w', t)"
      and "Datagen go wg \<in> set t" "data_generation_task self go wg = (Some e, wg')"
  shows "r = Some e \<and> (\<forall>lo wl. Dataload lo wl \<notin> set t)"
  using assms
  by (auto simp: generate_batch_eq Let_def split: sum.splits option.splits prod.splits if_splits)

section \<open>The loop over the batches\<close>

lemma batch_loop_events:
  assumes step: "\<And>s i w r w' t ev. (s, i) \<in> set bs \<Longrightarrow>
                   generate_batch env self (database_url self)
                     (if truthy (debug_dir self) then debug_dir self else PStr tempdir)
                     (mapping_file self) s i w = (r, w', t) \<Longrightarrow> ev \<in> set t \<Longrightarrow> P s i ev"
      and run: "batch_loop env self tempdir bs w = (r, w', t)"
      and ev: "ev \<in> set t"
  shows "\<exists>(s, i) \<in> set bs. P s i ev"
  using assms
proof (induction bs arbitrary: w r w' t)
  case Nil
  then show ?case by simp
next
  case (Cons b bs)
  obtain s i where b: "b = (s, i)" by (cases b)
  obtain r1 w1 t1 where g: "generate_batch env self (database_url self)
                     (if truthy (debug_dir self) then debug_dir self else PStr tempdir)
                     (mapping_file self) s i w = (r1, w1, t1)"
    by (metis prod_cases3)
  show ?case
  proof (cases "ev \<in> set t1")
    case True
    have "P s i ev" by (rule Cons.prems(1)[OF _ g True]) (simp add: b)
    then show ?thesis by (auto simp: b)
  next
    case False
    with Cons.prems(2,3) g b obtain r2 t2 where
      rest: "batch_loop env self tempdir bs w1 = (r2, w', t2)" and in2: "ev \<in> set t2"
      by (auto split: option.splits prod.splits)
    have "\<exists>(s, i) \<in> set bs. P s i ev"
      by (rule Cons.IH[OF _ rest in2]) (rule Cons.prems(1), auto)
    then show ?thesis by auto
  qed
qed

lemma batch_loop_append_fails:
  assumes "batch_loop env self tempdir bs1 w = (None, w1, t1)"
      and "generate_batch env self (database_url self)
             (if truthy (debug_dir self) then debug_dir self else PStr tempdir)
             (mapping_file self) s i w1 = (Some e, w2, t2)"
  shows "batch_loop env self tempdir (bs1 @ (s, i) # bs2) w = (Some e, w2, t1 @ t2)"
  using assms
proof (induction bs1 arbitrary: w t1)
  case Nil
  then show ?case by simp
next
  case (Cons b bs1)
  obtain s' i' where b: "b = (s', i')" by (cases b)
  from Cons.prems(1) b obtain wa ta tb where
    first: "generate_batch env self (database_url self)
             (if truthy (debug_dir self) then debug_dir self else PStr tempdir)
             (mapping_file self) s' i' w = (None, wa, ta)"
    and rest: "batch_loop env self tempdir bs1 wa = (None, w1, tb)" and t1: "t1 = ta @ tb"
    by (auto split: option.splits prod.splits)
  from Cons.IH[OF rest Cons.prems(2)] first t1 show ?case by (simp add: b)
qed


lemma run_task_trace:
  "snd (snd (run_task env self w)) =
     snd (snd (batch_loop env self (fst (mkdtemp env w))
                 (generate_batches (num_records self) (batch_size self)) (snd (mkdtemp env w))))"
  by (simp add: run_task_eq split: prod.splits)

lemma run_task_events:
  assumes step: "\<And>s i w r w' t ev.
                   generate_batch env self (database_url self)
                     (if truthy (debug_dir self) then debug_dir self
                      else PStr (fst (mkdtemp env w0)))
                     (mapping_file self) s i w = (r, w', t) \<Longrightarrow> ev \<in> set t \<Longrightarrow> P ev"
      and ev: "ev \<in> set (snd (snd (run_task env self w0)))"
  shows "P ev"
proof -
  obtain r w' t where run: "batch_loop env self (fst (mkdtemp env w0))
                 (generate_batches (num_records self) (batch_size self)) (snd (mkdtemp env w0))
                 = (r, w', t)"
    by (metis prod_cases3)
  with ev have "ev \<in> set t" by (simp add: run_task_trace)
  from batch_loop_events[where P = "\<lambda>s i. P", OF _ run this] step show ?thesis
    by blast
qed

lemma cleaned_tables:
  "tables (cleaned w u) = (tables w)(u := filter (\<lambda>(n, c). endswith n ''sf_ids'') (tables w u))"
  by (simp add: cleaned_def)

lemma resolve_url_Inr:
  "resolve_url env du td = Inr u \<Longrightarrow>
     (truthy du \<and> u = du) \<or>
     (\<not> truthy du \<and> (\<exists>d. td = PStr d \<and>
         u = PStr (''sqlite:///'' @ path_join env d ''generated_data.db'')))"
  by (auto simp: resolve_url_def split: if_splits pyval.splits)

section \<open>The life cycle of the object tables\<close>

text \<open>
  Claim C2. In every batch, whatever its index and whatever the store holds (batch 0 and
  a store that was just created included), the generation step is started in a world
  where the staging store named in its options holds exactly the tables it held at the
  start of the batch whose names end with \<^verbatim>\<open>sf_ids\<close>: every other table of the store
  has been dropped, the ID-mapping tables are as they were, and no other store was
  touched. Over a whole run, every invocation of the generation step sees only
  ID-mapping tables in its staging store, and no call of \<^verbatim>\<open>drop_all\<close> the task makes
  names a table whose name ends with \<^verbatim>\<open>sf_ids\<close>. (Dropping is the only operation of the
  task on tables; removing the temporary directory at the end of the run ends the life
  of a transient store as a whole.)
\<close>

theorem object_tables_dropped_before_generation:
  "(\<forall>opts wg. generate_batch env self du td mf s i w = (r, w', t) \<longrightarrow> Datagen opts wg \<in> set t \<longrightarrow>
        tables wg = (tables w)(dict_get opts ''database_url'' :=
                      filter (\<lambda>(n, c). endswith n ''sf_ids'')
                        (tables w (dict_get opts ''database_url''))))
   \<and> (\<forall>ev \<in> set (snd (snd (run_task env self w0))).
        case ev of
          Datagen opts wg \<Rightarrow>
            list_all (\<lambda>(n, c). endswith n ''sf_ids'') (tables wg (dict_get opts ''database_url''))
        | Dataload opts wl \<Rightarrow> True
        | DropAll u names \<Rightarrow> list_all (\<lambda>n. \<not> endswith n ''sf_ids'') names)"
proof -
  have batch: "tables wg = (tables w)(dict_get opts ''database_url'' :=
                      filter (\<lambda>(n, c). endswith n ''sf_ids'')
                        (tables w (dict_get opts ''database_url'')))"
    if "generate_batch env self du td mf s i w = (r, w', t)" "Datagen opts wg \<in> set t"
    for du td mf s i w r w' t opts and wg :: "'a world"
  proof -
    from generate_batch_Datagen[OF that] obtain u name where
      o: "opts = batch_options (options self) mf u s i td name" and
      g: "wg = (cleaned w u)\<lparr>files := insert name (files (cleaned w u))\<rparr>"
      by blast
    have "dict_get opts ''database_url'' = u" by (simp add: o batch_options_def dict_get_def)
    then show ?thesis by (simp add: g cleaned_tables)
  qed
  have names: "list_all (\<lambda>n. \<not> endswith n ''sf_ids'') (object_names tbls)"
    for tbls :: "(string \<times> 'a) list"
    by (auto simp: object_names_def list_all_iff)
  have run: "case ev of
          Datagen opts wg \<Rightarrow>
            list_all (\<lambda>(n, c). endswith n ''sf_ids'') (tables wg (dict_get opts ''database_url''))
        | Dataload opts wl \<Rightarrow> True
        | DropAll u names \<Rightarrow> list_all (\<lambda>n. \<not> endswith n ''sf_ids'') names"
    if "ev \<in> set (snd (snd (run_task env self w0)))" for ev
  proof (rule run_task_events[OF _ that])
    fix s i w r w' t and ev :: "'a event"
    assume g: "generate_batch env self (database_url self)
                     (if truthy (debug_dir self) then debug_dir self
                      else PStr (fst (mkdtemp env w0)))
                     (mapping_file self) s i w = (r, w', t)" and e: "ev \<in> set t"
    show "case ev of
          Datagen opts wg \<Rightarrow>
            list_all (\<lambda>(n, c). endswith n ''sf_ids'') (tables wg (dict_get opts ''database_url''))
        | Dataload opts wl \<Rightarrow> True
        | DropAll u names \<Rightarrow> list_all (\<lambda>n. \<not> endswith n ''sf_ids'') names"
    proof (cases ev)
      case (Datagen opts wg)
      with batch[OF g] e show ?thesis by (simp add: list_all_iff)
    next
      case (Dataload opts wl)
      then show ?thesis by simp
    next
      case (DropAll u nms)
      with e have "DropAll u nms \<in> set t" by simp
      from generate_batch_DropAll[OF g this] have "nms = object_names (tables w u)" by blast
      then show ?thesis using names[of "tables w u"] DropAll by simp
    qed
  qed
  from batch run show ?thesis by blast
qed


text \<open>The sample configuration, for evaluation.\<close>

lemmas ex_defs = ex_env_def ex_world_def ex_self_def ex_options_def ex_generator_def
  ex_loader_def

theorem object_tables_dropped_before_generation_witness:
  "\<exists>opts wg.
      Datagen opts wg \<in> set (snd (snd (generate_batch ex_env ex_self (PStr ''sqlite:///kept.db'')
                                          (PStr ''/tmp/run'') PNone 2 0 ex_world)))
    \<and> dict_get opts ''database_url'' = PStr ''sqlite:///kept.db''
    \<and> tables ex_world (PStr ''sqlite:///kept.db'') = [(''Contact'', 7), (''Contact_sf_ids'', 7)]
    \<and> tables wg (PStr ''sqlite:///kept.db'') = [(''Contact_sf_ids'', 7)]
    \<and> DropAll (PStr ''sqlite:///kept.db'') [''Contact'']
        \<in> set (snd (snd (generate_batch ex_env ex_self (PStr ''sqlite:///kept.db'')
                            (PStr ''/tmp/run'') PNone 2 0 ex_world)))"
proof -
  obtain r w' t where
    g: "generate_batch ex_env ex_self (PStr ''sqlite:///kept.db'') (PStr ''/tmp/run'') PNone 2 0
          ex_world = (r, w', t)"
    by (metis prod_cases3)
  from g have "\<exists>opts wg. Datagen opts wg \<in> set t
                 \<and> dict_get opts ''database_url'' = PStr ''sqlite:///kept.db''
                 \<and> DropAll (PStr ''sqlite:///kept.db'') [''Contact''] \<in> set t"
    by (auto simp: generate_batch_eq resolve_url_def object_names_def cleaned_def
          batch_options_def endswith_def dict_get_def Let_def ex_defs)
  then obtain opts wg where
    d: "Datagen opts wg \<in> set t" and
    u: "dict_get opts ''database_url'' = PStr ''sqlite:///kept.db''" and
    dr: "DropAll (PStr ''sqlite:///kept.db'') [''Contact''] \<in> set t"
    by blast
  from object_tables_dropped_before_generation
         [of ex_env ex_self "PStr ''sqlite:///kept.db''" "PStr ''/tmp/run''" PNone 2 0 ex_world
             r w' t ex_world] g d
  have "tables wg = (tables ex_world)(dict_get opts ''database_url'' :=
                      filter (\<lambda>(n, c). endswith n ''sf_ids'')
                        (tables ex_world (dict_get opts ''database_url'')))"
    by blast
  with u have "tables wg (PStr ''sqlite:///kept.db'') = [(''Contact_sf_ids'', 7)]"
    by (simp add: ex_world_def endswith_def)
  with d u dr g show ?thesis by (auto simp: ex_world_def)
qed

section \<open>The options of the sub-tasks\<close>

text \<open>
  Claim C6. In a batch of size \<open>s\<close> and index \<open>i\<close>, called as the loop calls it, the
  options given to the generation step are the task's own options overridden at exactly
  seven keys: \<^verbatim>\<open>mapping\<close> is the configured mapping file (\<^verbatim>\<open>None\<close> when none is
  configured), \<^verbatim>\<open>generate_mapping_file\<close> is the path of a scratch file, \<^verbatim>\<open>reset_oids\<close> is
  false, \<^verbatim>\<open>database_url\<close> is the resolved locator of the staging store (the caller's, or
  the SQLite file in the working directory), \<^verbatim>\<open>num_records\<close> is \<open>s\<close>,
  \<^verbatim>\<open>current_batch_number\<close> is \<open>i\<close> and \<^verbatim>\<open>working_directory\<close> is the directory the batch was
  given. Every other key has the value it has in the task's options.
\<close>

theorem generation_step_options:
  assumes "generate_batch env self (database_url self) td (mapping_file self) s i w = (r, w', t)"
      and "Datagen opts wg \<in> set t"
  shows "opts ''mapping'' = Some (mapping_file self)
       \<and> (\<exists>name. opts ''generate_mapping_file'' = Some (PStr name))
       \<and> opts ''reset_oids'' = Some (PBool False)
       \<and> ((truthy (database_url self) \<and> opts ''database_url'' = Some (database_url self))
          \<or> (\<not> truthy (database_url self) \<and>
              (\<exists>d. td = PStr d \<and>
                 opts ''database_url''
                   = Some (PStr (''sqlite:///'' @ path_join env d ''generated_data.db'')))))
       \<and> opts ''num_records'' = Some (PInt s)
       \<and> opts ''current_batch_number'' = Some (PInt i)
       \<and> opts ''working_directory'' = Some td
       \<and> (\<forall>k. k \<notin> {''mapping'', ''generate_mapping_file'', ''reset_oids'', ''database_url'',
                      ''num_records'', ''current_batch_number'', ''working_directory''}
              \<longrightarrow> opts k = options self k)"
proof -
  from generate_batch_Datagen[OF assms] obtain u name where
    u: "resolve_url env (database_url self) td = Inr u" and
    o: "opts = batch_options (options self) (mapping_file self) u s i td name"
    by blast
  from resolve_url_Inr[OF u] o show ?thesis
    by (auto simp: batch_options_def)
qed

theorem generation_step_options_witness:
  "\<exists>opts wg.
      Datagen opts wg \<in> set (snd (snd (generate_batch ex_env ex_self (database_url ex_self)
                                          (PStr ''/tmp/run'') (mapping_file ex_self) 2 0 ex_world)))
    \<and> options ex_self ''num_records'' = Some (PStr ''3'')
    \<and> opts ''num_records'' = Some (PInt 2)
    \<and> opts ''current_batch_number'' = Some (PInt 0)
    \<and> opts ''mapping'' = Some PNone
    \<and> opts ''database_url'' = Some (PStr ''sqlite:////tmp/run/generated_data.db'')
    \<and> opts ''working_directory'' = Some (PStr ''/tmp/run'')
    \<and> opts ''data_generation_task'' = Some (PStr ''datagen.Accounts'')
    \<and> opts ''batch_size'' = Some (PInt 2)"
proof -
  obtain r w' t where
    g: "generate_batch ex_env ex_self (database_url ex_self) (PStr ''/tmp/run'')
          (mapping_file ex_self) 2 0 ex_world = (r, w', t)"
    by (metis prod_cases3)
  from g have "\<exists>opts wg. Datagen opts wg \<in> set t"
    by (auto simp: generate_batch_eq resolve_url_def object_names_def cleaned_def
          batch_options_def endswith_def dict_get_def Let_def ex_defs)
  then obtain opts wg where d: "Datagen opts wg \<in> set t" by blast
  from generation_step_options[OF g d] have
    "opts ''num_records'' = Some (PInt 2) \<and> opts ''current_batch_number'' = Some (PInt 0)
     \<and> opts ''mapping'' = Some PNone
     \<and> opts ''database_url'' = Some (PStr ''sqlite:////tmp/run/generated_data.db'')
     \<and> opts ''working_directory'' = Some (PStr ''/tmp/run'')
     \<and> opts ''data_generation_task'' = Some (PStr ''datagen.Accounts'')
     \<and> opts ''batch_size'' = Some (PInt 2)"
    by (simp add: ex_defs)
  with d g show ?thesis by (auto simp: ex_self_def ex_options_def)
qed

text \<open>
  Claim C4. In a batch with no fixed mapping file, whenever the load step is invoked its
  \<^verbatim>\<open>mapping\<close> option is the path that the generation step of the same batch was given as
  \<^verbatim>\<open>generate_mapping_file\<close>, and its other options are those of the generation step. The
  scratch file of that path exists while the generation step runs and does not exist
  when the batch is over, whether the batch ends normally or by an exception of the
  generation or load step: the statement holds for every outcome \<open>r\<close>.
\<close>

theorem scratch_mapping_file:
  assumes "\<not> truthy mf"
      and "generate_batch env self du td mf s i w = (r, w', t)"
  shows "(\<forall>lo wl. Dataload lo wl \<in> set t \<longrightarrow>
            (\<exists>go wg name. Datagen go wg \<in> set t
               \<and> go ''generate_mapping_file'' = Some (PStr name)
               \<and> lo = go(''mapping'' \<mapsto> PStr name)))
       \<and> (\<forall>go wg name. Datagen go wg \<in> set t \<longrightarrow> go ''generate_mapping_file'' = Some (PStr name)
            \<longrightarrow> name \<in> files wg \<and> name \<notin> files w')"
proof -
  have load: "\<exists>go wg name. Datagen go wg \<in> set t
               \<and> go ''generate_mapping_file'' = Some (PStr name)
               \<and> lo = go(''mapping'' \<mapsto> PStr name)"
    if "Dataload lo wl \<in> set t" for lo wl
    using generate_batch_Dataload[OF assms(2) that] assms(1) by auto
  have release: "name \<in> files wg \<and> name \<notin> files w'"
    if "Datagen go wg \<in> set t" "go ''generate_mapping_file'' = Some (PStr name)" for go wg name
  proof -
    from generate_batch_Datagen[OF assms(2) that(1)] obtain u nm where
      o: "go = batch_options (options self) mf u s i td nm" and
      g: "wg = (cleaned w u)\<lparr>files := insert nm (files (cleaned w u))\<rparr>" and
      n: "nm \<notin> files w'"
      by blast
    from o that(2) have "nm = name" by (simp add: batch_options_def)
    with g n show ?thesis by simp
  qed
  from load release show ?thesis by blast
qed


text \<open>Evaluation of a batch of the sample configuration.\<close>

lemmas ex_eval = generate_batch_eq resolve_url_def object_names_def cleaned_def
  batch_options_def endswith_def dict_get_def Let_def ex_defs

theorem scratch_mapping_file_witness:
  "(\<exists>lo wl go wg name.
       Dataload lo wl \<in> set (snd (snd (generate_batch ex_env ex_self PNone (PStr ''/tmp/run'')
                                          PNone 2 0 ex_world)))
     \<and> Datagen go wg \<in> set (snd (snd (generate_batch ex_env ex_self PNone (PStr ''/tmp/run'')
                                          PNone 2 0 ex_world)))
     \<and> go ''generate_mapping_file'' = Some (PStr name)
     \<and> lo ''mapping'' = Some (PStr name)
     \<and> name \<in> files wg
     \<and> name \<notin> files (fst (snd (generate_batch ex_env ex_self PNone (PStr ''/tmp/run'')
                                 PNone 2 0 ex_world)))
     \<and> fst (generate_batch ex_env ex_self PNone (PStr ''/tmp/run'') PNone 2 0 ex_world) = None)
   \<and> (\<exists>go wg name.
       Datagen go wg \<in> set (snd (snd (generate_batch ex_env
                                (ex_self\<lparr>options := ex_options(''fail_at'' \<mapsto> PInt 0)\<rparr>)
                                PNone (PStr ''/tmp/run'') PNone 2 0 ex_world)))
     \<and> go ''generate_mapping_file'' = Some (PStr name)
     \<and> name \<in> files wg
     \<and> name \<notin> files (fst (snd (generate_batch ex_env
                                (ex_self\<lparr>options := ex_options(''fail_at'' \<mapsto> PInt 0)\<rparr>)
                                PNone (PStr ''/tmp/run'') PNone 2 0 ex_world)))
     \<and> fst (generate_batch ex_env (ex_self\<lparr>options := ex_options(''fail_at'' \<mapsto> PInt 0)\<rparr>)
              PNone (PStr ''/tmp/run'') PNone 2 0 ex_world) = Some (Raised ''GeneratorError''))"
proof -
  have f: "\<not> truthy PNone" by simp
  obtain r w' t where
    g: "generate_batch ex_env ex_self PNone (PStr ''/tmp/run'') PNone 2 0 ex_world = (r, w', t)"
    by (metis prod_cases3)
  from g have "\<exists>lo wl. Dataload lo wl \<in> set t \<and> r = None"
    by (auto simp: ex_eval)
  then obtain lo wl where l: "Dataload lo wl \<in> set t" and r: "r = None" by blast
  from scratch_mapping_file[OF f g] l obtain go wg name where
    d: "Datagen go wg \<in> set t" and n: "go ''generate_mapping_file'' = Some (PStr name)" and
    m: "lo = go(''mapping'' \<mapsto> PStr name)"
    by blast
  from scratch_mapping_file[OF f g] d n have "name \<in> files wg \<and> name \<notin> files w'" by blast
  with g l d n m r have ok: "\<exists>lo wl go wg name.
       Dataload lo wl \<in> set (snd (snd (generate_batch ex_env ex_self PNone (PStr ''/tmp/run'')
                                          PNone 2 0 ex_world)))
     \<and> Datagen go wg \<in> set (snd (snd (generate_batch ex_env ex_self PNone (PStr ''/tmp/run'')
                                          PNone 2 0 ex_world)))
     \<and> go ''generate_mapping_file'' = Some (PStr name)
     \<and> lo ''mapping'' = Some (PStr name)
     \<and> name \<in> files wg
     \<and> name \<notin> files (fst (snd (generate_batch ex_env ex_self PNone (PStr ''/tmp/run'')
                                 PNone 2 0 ex_world)))
     \<and> fst (generate_batch ex_env ex_self PNone (PStr ''/tmp/run'') PNone 2 0 ex_world) = None"
    by (intro exI[of _ lo] exI[of _ wl] exI[of _ go] exI[of _ wg] exI[of _ name]) simp
  obtain r2 w2 t2 where
    g2: "generate_batch ex_env (ex_self\<lparr>options := ex_options(''fail_at'' \<mapsto> PInt 0)\<rparr>)
           PNone (PStr ''/tmp/run'') PNone 2 0 ex_world = (r2, w2, t2)"
    by (metis prod_cases3)
  from g2 have "\<exists>go wg name. Datagen go wg \<in> set t2
                  \<and> go ''generate_mapping_file'' = Some (PStr name)
                  \<and> r2 = Some (Raised ''GeneratorError'')"
    by (auto simp: ex_eval)
  then obtain go2 wg2 name2 where
    d2: "Datagen go2 wg2 \<in> set t2" and n2: "go2 ''generate_mapping_file'' = Some (PStr name2)" and
    r2: "r2 = Some (Raised ''GeneratorError'')"
    by blast
  from scratch_mapping_file[OF f g2] d2 n2 have "name2 \<in> files wg2 \<and> name2 \<notin> files w2" by blast
  with g2 d2 n2 r2 have bad: "\<exists>go wg name.
       Datagen go wg \<in> set (snd (snd (generate_batch ex_env
                                (ex_self\<lparr>options := ex_options(''fail_at'' \<mapsto> PInt 0)\<rparr>)
                                PNone (PStr ''/tmp/run'') PNone 2 0 ex_world)))
     \<and> go ''generate_mapping_file'' = Some (PStr name)
     \<and> name \<in> files wg
     \<and> name \<notin> files (fst (snd (generate_batch ex_env
                                (ex_self\<lparr>options := ex_options(''fail_at'' \<mapsto> PInt 0)\<rparr>)
                                PNone (PStr ''/tmp/run'') PNone 2 0 ex_world)))
     \<and> fst (generate_batch ex_env (ex_self\<lparr>options := ex_options(''fail_at'' \<mapsto> PInt 0)\<rparr>)
              PNone (PStr ''/tmp/run'') PNone 2 0 ex_world) = Some (Raised ''GeneratorError'')"
    by (intro exI[of _ go2] exI[of _ wg2] exI[of _ name2]) simp
  from ok bad show ?thesis by (rule conjI)
qed

section \<open>The staging store of a run\<close>

text \<open>
  Claim C9. When the task has no \<^verbatim>\<open>database_url\<close>, every invocation of the generation
  step and of the load step in a run, and every call of \<^verbatim>\<open>drop_all\<close>, is on one and the
  same locator: the SQLite file \<^verbatim>\<open>generated_data.db\<close> in the directory \<open>d\<close>, where \<open>d\<close> is
  the debug directory if one is configured and otherwise the temporary directory that was
  created once for the run. The locator does not depend on the batch, so all batches of
  the run share one store.
\<close>

theorem transient_store_locator:
  assumes "\<not> truthy (database_url self)"
      and "ev \<in> set (snd (snd (run_task env self w)))"
  shows "\<exists>d. (if truthy (debug_dir self) then debug_dir self
              else PStr (fst (mkdtemp env w))) = PStr d
           \<and> (case ev of
                Datagen opts wg \<Rightarrow>
                  opts ''database_url''
                    = Some (PStr (''sqlite:///'' @ path_join env d ''generated_data.db''))
              | Dataload opts wl \<Rightarrow>
                  opts ''database_url''
                    = Some (PStr (''sqlite:///'' @ path_join env d ''generated_data.db''))
              | DropAll u names \<Rightarrow>
                  u = PStr (''sqlite:///'' @ path_join env d ''generated_data.db''))"
proof (rule run_task_events[OF _ assms(2)])
  fix s i w1 r w' t and ev :: "'a event"
  let ?td = "if truthy (debug_dir self) then debug_dir self else PStr (fst (mkdtemp env w))"
  assume g: "generate_batch env self (database_url self) ?td (mapping_file self) s i w1
               = (r, w', t)"
    and e: "ev \<in> set t"
  have gen: "\<exists>d. ?td = PStr d \<and>
               opts ''database_url''
                  = Some (PStr (''sqlite:///'' @ path_join env d ''generated_data.db''))"
    if "Datagen opts wg \<in> set t" for opts wg
  proof -
    from generate_batch_Datagen[OF g that] obtain u name where
      u: "resolve_url env (database_url self) ?td = Inr u" and
      o: "opts = batch_options (options self) (mapping_file self) u s i ?td name"
      by blast
    from resolve_url_Inr[OF u] assms(1) obtain d where
      "?td = PStr d" "u = PStr (''sqlite:///'' @ path_join env d ''generated_data.db'')"
      by blast
    with o show ?thesis by (simp add: batch_options_def)
  qed
  show "\<exists>d. ?td = PStr d
           \<and> (case ev of
                Datagen opts wg \<Rightarrow>
                  opts ''database_url''
                    = Some (PStr (''sqlite:///'' @ path_join env d ''generated_data.db''))
              | Dataload opts wl \<Rightarrow>
                  opts ''database_url''
                    = Some (PStr (''sqlite:///'' @ path_join env d ''generated_data.db''))
              | DropAll u names \<Rightarrow>
                  u = PStr (''sqlite:///'' @ path_join env d ''generated_data.db''))"
  proof (cases ev)
    case (Datagen opts wg)
    with e gen show ?thesis by simp
  next
    case (Dataload lo wl)
    with e have "Dataload lo wl \<in> set t" by simp
    from generate_batch_Dataload[OF g this] obtain go wg name where
      d: "Datagen go wg \<in> set t" and
      l: "lo = (if \<not> truthy (mapping_file self) then go(''mapping'' \<mapsto> PStr name) else go)"
      by blast
    from gen[OF d] l Dataload show ?thesis by auto
  next
    case (DropAll u names)
    with e have "DropAll u names \<in> set t" by simp
    from generate_batch_DropAll[OF g this] have "resolve_url env (database_url self) ?td = Inr u"
      by blast
    from resolve_url_Inr[OF this] assms(1) DropAll show ?thesis by auto
  qed
qed


theorem transient_store_locator_witness:
  "\<exists>o1 w1 o2 w2.
      Datagen o1 w1 \<in> set (snd (snd (run_task ex_env ex_self ex_world)))
    \<and> o1 ''current_batch_number'' = Some (PInt 0)
    \<and> Datagen o2 w2 \<in> set (snd (snd (run_task ex_env ex_self ex_world)))
    \<and> o2 ''current_batch_number'' = Some (PInt 1)
    \<and> o1 ''database_url'' = Some (PStr ''sqlite:////tmp/run/generated_data.db'')
    \<and> o2 ''database_url'' = Some (PStr ''sqlite:////tmp/run/generated_data.db'')"
proof -
  have n: "\<not> truthy (database_url ex_self)" by (simp add: ex_self_def)
  have "\<exists>o1 w1. Datagen o1 w1 \<in> set (snd (snd (run_task ex_env ex_self ex_world)))
    \<and> o1 ''current_batch_number'' = Some (PInt 0)"
    by (auto simp: run_task_eq ex_generate_batches ex_eval)
  moreover
  have "\<exists>o2 w2. Datagen o2 w2 \<in> set (snd (snd (run_task ex_env ex_self ex_world)))
    \<and> o2 ''current_batch_number'' = Some (PInt 1)"
    by (auto simp: run_task_eq ex_generate_batches ex_eval)
  ultimately obtain o1 w1 o2 w2 where
    d1: "Datagen o1 w1 \<in> set (snd (snd (run_task ex_env ex_self ex_world)))" and
    b1: "o1 ''current_batch_number'' = Some (PInt 0)" and
    d2: "Datagen o2 w2 \<in> set (snd (snd (run_task ex_env ex_self ex_world)))" and
    b2: "o2 ''current_batch_number'' = Some (PInt 1)"
    by blast
  from transient_store_locator[OF n d1]
  have u1: "o1 ''database_url'' = Some (PStr ''sqlite:////tmp/run/generated_data.db'')"
    by (simp add: ex_defs)
  from transient_store_locator[OF n d2]
  have u2: "o2 ''database_url'' = Some (PStr ''sqlite:////tmp/run/generated_data.db'')"
    by (simp add: ex_defs)
  from d1 b1 d2 b2 u1 u2 show ?thesis by blast
qed

section \<open>Failures\<close>

text \<open>
  Claim C5. An exception of a collaborator leaves the batch, and the loop, as it is:
  \<^item> when connecting to or reflecting the resolved staging store raises \<open>e\<close>, the batch
    ends with \<open>e\<close>, the world unchanged and nothing invoked;
  \<^item> when \<^verbatim>\<open>drop_all\<close> raises \<open>e\<close>, the batch ends with \<open>e\<close> and that call was all it did;
  \<^item> when the generation step raises \<open>e\<close>, the batch ends with \<open>e\<close>, the load step is not
    invoked, and the world is the one the generation step left, less the scratch file;
  \<^item> when the load step raises \<open>e\<close>, the batch ends with \<open>e\<close> and the world is the one
    the load step left, less the scratch file;
  \<^item> when the batches before a batch complete and that batch ends with \<open>e\<close>, the run ends
    with the same \<open>e\<close>; its trace is the trace of the completed batches followed by the
    trace of the one attempt at the failing batch, so no later batch is started and
    nothing is tried again; and its world is the world the failing batch left on top of
    the completed batches, changed only by the removal of the temporary directory.
\<close>

theorem failure_propagates:
  "(\<forall>u e. engine_error env u w = Some e \<longrightarrow>
       ((truthy du \<and> u = du) \<or>
        (\<not> truthy du \<and> (\<exists>d. td = PStr d \<and>
            u = PStr (''sqlite:///'' @ path_join env d ''generated_data.db'')))) \<longrightarrow>
       generate_batch env self du td mf s i w = (Some e, w, []))
   \<and> (generate_batch env self du td mf s i w = (r, w', t) \<longrightarrow>
        (\<forall>u names e. DropAll u names \<in> set t \<longrightarrow> drop_error env u names w = Some e \<longrightarrow>
            r = Some e \<and> w' = w \<and> t = [DropAll u names])
      \<and> (\<forall>go wg e wg'. Datagen go wg \<in> set t \<longrightarrow>
            data_generation_task self go wg = (Some e, wg') \<longrightarrow>
            r = Some e \<and> (\<forall>lo wl. Dataload lo wl \<notin> set t)
              \<and> (\<exists>name. w' = wg'\<lparr>files := files wg' - {name}\<rparr>))
      \<and> (\<forall>lo wl e wl'. Dataload lo wl \<in> set t \<longrightarrow> load_data env lo wl = (Some e, wl') \<longrightarrow>
            r = Some e \<and> (\<exists>name. w' = wl'\<lparr>files := files wl' - {name}\<rparr>)))
   \<and> (generate_batches (num_records self) (batch_size self) = bs1 @ (s1, i1) # bs2 \<longrightarrow>
      batch_loop env self (fst (mkdtemp env w0)) bs1 (snd (mkdtemp env w0)) = (None, w1, t1) \<longrightarrow>
      generate_batch env self (database_url self)
        (if truthy (debug_dir self) then debug_dir self else PStr (fst (mkdtemp env w0)))
        (mapping_file self) s1 i1 w1 = (Some e1, w2, t2) \<longrightarrow>
      run_task env self w0 = (Some e1, rmtree env (fst (mkdtemp env w0)) w2, t1 @ t2))"
proof -
  have engine: "generate_batch env self du td mf s i w = (Some e, w, [])"
    if "engine_error env u w = Some e"
      "(truthy du \<and> u = du) \<or>
        (\<not> truthy du \<and> (\<exists>d. td = PStr d \<and>
            u = PStr (''sqlite:///'' @ path_join env d ''generated_data.db'')))" for u e
  proof -
    from that(2) have "resolve_url env du td = Inr u" by (auto simp: resolve_url_def)
    then show ?thesis using that(1) by (rule generate_batch_engine_error)
  qed
  have drop: "r = Some e \<and> w' = w \<and> t = [DropAll u names]"
    if "generate_batch env self du td mf s i w = (r, w', t)" "DropAll u names \<in> set t"
      "drop_error env u names w = Some e" for u names e
    using generate_batch_DropAll[OF that(1,2)] that(3) by blast
  have gen: "r = Some e \<and> (\<forall>lo wl. Dataload lo wl \<notin> set t)
              \<and> (\<exists>name. w' = wg'\<lparr>files := files wg' - {name}\<rparr>)"
    if "generate_batch env self du td mf s i w = (r, w', t)" "Datagen go wg \<in> set t"
      "data_generation_task self go wg = (Some e, wg')" for go wg e wg'
  proof -
    from generate_batch_Datagen[OF that(1,2)] that(3)
    have "\<exists>name. w' = wg'\<lparr>files := files wg' - {name}\<rparr>" by auto
    with generate_batch_Datagen_error[OF that] show ?thesis by blast
  qed
  have load: "r = Some e \<and> (\<exists>name. w' = wl'\<lparr>files := files wl' - {name}\<rparr>)"
    if "generate_batch env self du td mf s i w = (r, w', t)" "Dataload lo wl \<in> set t"
      "load_data env lo wl = (Some e, wl')" for lo wl e wl'
    using generate_batch_Dataload[OF that(1,2)] that(3) by auto
  have loop: "run_task env self w0 = (Some e1, rmtree env (fst (mkdtemp env w0)) w2, t1 @ t2)"
    if "generate_batches (num_records self) (batch_size self) = bs1 @ (s1, i1) # bs2"
      "batch_loop env self (fst (mkdtemp env w0)) bs1 (snd (mkdtemp env w0)) = (None, w1, t1)"
      "generate_batch env self (database_url self)
        (if truthy (debug_dir self) then debug_dir self else PStr (fst (mkdtemp env w0)))
        (mapping_file self) s1 i1 w1 = (Some e1, w2, t2)"
    using batch_loop_append_fails[OF that(2,3), of bs2] that(1) by (simp add: run_task_eq)
  show ?thesis
  proof (intro conjI impI)
    show "\<forall>u e. engine_error env u w = Some e \<longrightarrow>
       ((truthy du \<and> u = du) \<or>
        (\<not> truthy du \<and> (\<exists>d. td = PStr d \<and>
            u = PStr (''sqlite:///'' @ path_join env d ''generated_data.db'')))) \<longrightarrow>
       generate_batch env self du td mf s i w = (Some e, w, [])"
      using engine by blast
  next
    assume g: "generate_batch env self du td mf s i w = (r, w', t)"
    show "\<forall>u names e. DropAll u names \<in> set t \<longrightarrow> drop_error env u names w = Some e \<longrightarrow>
            r = Some e \<and> w' = w \<and> t = [DropAll u names]"
      using drop[OF g] by blast
  next
    assume g: "generate_batch env self du td mf s i w = (r, w', t)"
    show "\<forall>go wg e wg'. Datagen go wg \<in> set t \<longrightarrow>
            data_generation_task self go wg = (Some e, wg') \<longrightarrow>
            r = Some e \<and> (\<forall>lo wl. Dataload lo wl \<notin> set t)
              \<and> (\<exists>name. w' = wg'\<lparr>files := files wg' - {name}\<rparr>)"
      using gen[OF g] by blast
  next
    assume g: "generate_batch env self du td mf s i w = (r, w', t)"
    show "\<forall>lo wl e wl'. Dataload lo wl \<in> set t \<longrightarrow> load_data env lo wl = (Some e, wl') \<longrightarrow>
            r = Some e \<and> (\<exists>name. w' = wl'\<lparr>files := files wl' - {name}\<rparr>)"
      using load[OF g] by blast
  next
    assume "generate_batches (num_records self) (batch_size self) = bs1 @ (s1, i1) # bs2"
      "batch_loop env self (fst (mkdtemp env w0)) bs1 (snd (mkdtemp env w0)) = (None, w1, t1)"
      "generate_batch env self (database_url self)
        (if truthy (debug_dir self) then debug_dir self else PStr (fst (mkdtemp env w0)))
        (mapping_file self) s1 i1 w1 = (Some e1, w2, t2)"
    then show "run_task env self w0 = (Some e1, rmtree env (fst (mkdtemp env w0)) w2, t1 @ t2)"
      by (rule loop)
  qed
qed


theorem failure_propagates_witness:
  "fst (run_task ex_env
          (ex_self\<lparr>database_url := PStr ''sqlite:///kept.db'',
                   options := ex_options(''fail_at'' \<mapsto> PInt 1)\<rparr>) ex_world)
     = Some (Raised ''GeneratorError'')
   \<and> tables (fst (snd (run_task ex_env
          (ex_self\<lparr>database_url := PStr ''sqlite:///kept.db'',
                   options := ex_options(''fail_at'' \<mapsto> PInt 1)\<rparr>) ex_world)))
        (PStr ''sqlite:///kept.db'') = [(''Account_sf_ids'', 9)]
   \<and> length (snd (snd (run_task ex_env
          (ex_self\<lparr>database_url := PStr ''sqlite:///kept.db'',
                   options := ex_options(''fail_at'' \<mapsto> PInt 1)\<rparr>) ex_world))) = 5"
proof -
  let ?S = "ex_self\<lparr>database_url := PStr ''sqlite:///kept.db'',
                    options := ex_options(''fail_at'' \<mapsto> PInt 1)\<rparr>"
  obtain r1 w1 t1 where
    b: "batch_loop ex_env ?S (fst (mkdtemp ex_env ex_world)) [(2, 0)]
          (snd (mkdtemp ex_env ex_world)) = (r1, w1, t1)"
    by (metis prod_cases3)
  from b have r1: "r1 = None" and l1: "length t1 = 3"
    by (auto simp: ex_eval)
  obtain r2 w2 t2 where
    g: "generate_batch ex_env ?S (database_url ?S)
          (if truthy (debug_dir ?S) then debug_dir ?S else PStr (fst (mkdtemp ex_env ex_world)))
          (mapping_file ?S) 1 1 w1 = (r2, w2, t2)"
    by (metis prod_cases3)
  from b g have r2: "r2 = Some (Raised ''GeneratorError'')" and l2: "length t2 = 2"
    and tb: "tables w2 (PStr ''sqlite:///kept.db'') = [(''Account_sf_ids'', 9)]"
    by (auto simp: ex_eval)
  have gb: "generate_batches (num_records ?S) (batch_size ?S) = [(2, 0)] @ (1, 1) # []"
    by (simp add: ex_self_def ex_generate_batches)
  from failure_propagates[THEN conjunct2, THEN conjunct2, rule_format,
         OF gb b[unfolded r1] g[unfolded r2]]
  have "run_task ex_env ?S ex_world
          = (Some (Raised ''GeneratorError''), rmtree ex_env (fst (mkdtemp ex_env ex_world)) w2,
             t1 @ t2)" .
  with l1 l2 tb show ?thesis by (simp add: ex_env_def)
qed

section \<open>Setup\<close>

text \<open>
  \<^verbatim>\<open>_init_options\<close> as the attributes of lines 93 to 111 followed by the check of the
  database.
\<close>

lemma sum_case_case:
  "(case (case m of Inl e \<Rightarrow> Inl e | Inr x \<Rightarrow> f x) of Inl e \<Rightarrow> Inl e | Inr y \<Rightarrow> g y)
     = (case m of Inl e \<Rightarrow> Inl e | Inr x \<Rightarrow> (case f x of Inl e \<Rightarrow> Inl e | Inr y \<Rightarrow> g y))"
  by (cases m) simp_all

lemma sum_case_if:
  "(case (if c then Inl a else t) of Inl e \<Rightarrow> Inl e | Inr y \<Rightarrow> g y)
     = (if c then Inl a else (case t of Inl e \<Rightarrow> Inl e | Inr y \<Rightarrow> g y))"
  by simp

lemma sum_case_option:
  "(case (case x of Some e \<Rightarrow> Inl e | None \<Rightarrow> Inr p) of Inl e \<Rightarrow> Inl e | Inr y \<Rightarrow> g y)
     = (case x of Some e \<Rightarrow> Inl e | None \<Rightarrow> g p)"
  by (cases x) simp_all

lemma init_options_eq:
  "init_options env opts w =
     (case init_attributes env opts w of
        Inl e \<Rightarrow> Inl e
      | Inr self \<Rightarrow>
          if truthy (database_url self) then
            (case engine_error env (database_url self) w of
               Some e \<Rightarrow> Inl e
             | None \<Rightarrow>
                 if tables w (database_url self) \<noteq> []
                    \<and> \<not> truthy (dict_get opts ''replace_database'')
                 then Inl (TaskOptionsError
                             (Database_has_tables (database_url self)
                                (map fst (tables w (database_url self)))))
                 else Inr self)
          else Inr self)"
  unfolding init_options_def init_attributes_def mapping_checked_def setup_engine_def
  by (simp add: Let_def sum_case_case sum_case_if sum_case_option
           cong: sum.case_cong if_cong option.case_cong)

lemma construct_and_call_Inl:
  "init_options env opts w = Inl e \<Longrightarrow> construct_and_call env opts w = (Some e, w, [])"
  by (simp add: construct_and_call_def)

lemma mapping_checked_typed:
  assumes "\<forall>m. opts ''mapping'' = Some m \<longrightarrow> truthy m \<longrightarrow> (\<exists>p. m = PStr p)"
  shows "(\<exists>mf. mapping_checked env opts w = Inr mf)
       \<or> (\<exists>p. mapping_checked env opts w = Inl (TaskOptionsError (Mapping_not_found p)))"
proof (cases "opts ''mapping''")
  case None
  then show ?thesis by (simp add: mapping_checked_def dict_get_def)
next
  case (Some m)
  show ?thesis
  proof (cases "truthy m")
    case True
    with assms Some obtain p where "m = PStr p" by blast
    with Some True show ?thesis by (simp add: mapping_checked_def dict_get_def Let_def)
  next
    case False
    with Some show ?thesis by (simp add: mapping_checked_def dict_get_def)
  qed
qed

lemma int_of_string_error: "int_of_string s = Inl e \<Longrightarrow> e = ValueError"
  by (auto simp: int_of_string_def split: list.splits option.splits if_splits)

lemma py_int_error: "py_int v = Inl e \<Longrightarrow> e = ValueError \<or> e = TypeError"
  by (cases v) (auto dest: int_of_string_error)

lemma init_attributes_batch_size:
  assumes "opts ''num_records'' = Some v" "py_int v = Inr n"
      and "(opts ''batch_size'' = None \<and> n \<le> 0)
           \<or> (\<exists>bv b. opts ''batch_size'' = Some bv \<and> py_int bv = Inr b \<and> b \<le> 0)"
  shows "init_options env opts w =
           (case mapping_checked env opts w of
              Inl e \<Rightarrow> Inl e
            | Inr mf \<Rightarrow> Inl (TaskOptionsError Batch_size_not_positive))"
  using assms by (auto simp: init_options_eq init_attributes_def split: sum.splits)

text \<open>
  Claim C7. A task that setup constructs from options without \<^verbatim>\<open>batch_size\<close> has its
  batch size equal to its number of records. When \<^verbatim>\<open>num_records\<close> coerces to an integer
  \<open>n\<close> and the batch size in force (\<open>n\<close> itself when \<^verbatim>\<open>batch_size\<close> is not supplied, the
  integer \<^verbatim>\<open>batch_size\<close> coerces to otherwise) is at most zero, setup raises, the task is
  not constructed, nothing is invoked and the world is unchanged. The exception is a
  configuration error whenever the \<^verbatim>\<open>mapping\<close> option is absent, falsy or a string (the
  check of the mapping file runs first and raises a configuration error of its own for a
  missing file), and it is the batch-size error when that check passes.
\<close>

theorem batch_size_default_and_check:
  "(init_options env opts w = Inr self \<longrightarrow> opts ''batch_size'' = None \<longrightarrow>
        batch_size self = num_records self)
   \<and> (opts ''num_records'' = Some v \<longrightarrow> py_int v = Inr n \<longrightarrow>
        (opts ''batch_size'' = None \<and> n \<le> 0)
          \<or> (\<exists>bv b. opts ''batch_size'' = Some bv \<and> py_int bv = Inr b \<and> b \<le> 0) \<longrightarrow>
        (\<exists>e. construct_and_call env opts w = (Some e, w, [])
            \<and> ((\<forall>m. opts ''mapping'' = Some m \<longrightarrow> truthy m \<longrightarrow> (\<exists>p. m = PStr p))
                  \<longrightarrow> is_TaskOptionsError e)
            \<and> (\<forall>mf. mapping_checked env opts w = Inr mf
                  \<longrightarrow> e = TaskOptionsError Batch_size_not_positive)))"
proof (intro conjI impI)
  assume "init_options env opts w = Inr self" "opts ''batch_size'' = None"
  then show "batch_size self = num_records self"
    by (auto simp: init_options_eq init_attributes_def
             split: sum.splits option.splits if_splits)
next
  assume h: "opts ''num_records'' = Some v" "py_int v = Inr n"
    "(opts ''batch_size'' = None \<and> n \<le> 0)
       \<or> (\<exists>bv b. opts ''batch_size'' = Some bv \<and> py_int bv = Inr b \<and> b \<le> 0)"
  note eq = init_attributes_batch_size[OF h, of env w]
  show "\<exists>e. construct_and_call env opts w = (Some e, w, [])
            \<and> ((\<forall>m. opts ''mapping'' = Some m \<longrightarrow> truthy m \<longrightarrow> (\<exists>p. m = PStr p))
                  \<longrightarrow> is_TaskOptionsError e)
            \<and> (\<forall>mf. mapping_checked env opts w = Inr mf
                  \<longrightarrow> e = TaskOptionsError Batch_size_not_positive)"
  proof (cases "mapping_checked env opts w")
    case (Inl e)
    with eq have i: "init_options env opts w = Inl e" by simp
    have "is_TaskOptionsError e"
      if "\<forall>m. opts ''mapping'' = Some m \<longrightarrow> truthy m \<longrightarrow> (\<exists>p. m = PStr p)"
      using mapping_checked_typed[of opts env w] that Inl by (auto simp: is_TaskOptionsError_def)
    with construct_and_call_Inl[OF i] Inl show ?thesis by auto
  next
    case (Inr mf)
    with eq have i: "init_options env opts w = Inl (TaskOptionsError Batch_size_not_positive)"
      by simp
    from construct_and_call_Inl[OF i] show ?thesis by (auto simp: is_TaskOptionsError_def)
  qed
qed


text \<open>Evaluation of setup on the sample configuration.\<close>

lemmas ex_init_eval = init_options_def setup_engine_def dict_get_def int_of_string_def strip_def
  is_space_def parse_nat_def is_digit_def digit_value_def ex_defs

theorem batch_size_default_and_check_witness:
  "construct_and_call ex_env
      [''num_records'' \<mapsto> PInt 0, ''data_generation_task'' \<mapsto> PStr ''datagen.Accounts'']
      ex_world
     = (Some (TaskOptionsError Batch_size_not_positive), ex_world, [])
   \<and> construct_and_call ex_env (ex_options(''batch_size'' \<mapsto> PStr ''-1'')) ex_world
     = (Some (TaskOptionsError Batch_size_not_positive), ex_world, [])
   \<and> (\<exists>self. init_options ex_env
                 [''num_records'' \<mapsto> PStr ''5'',
                  ''data_generation_task'' \<mapsto> PStr ''datagen.Accounts''] ex_world = Inr self
          \<and> num_records self = 5 \<and> batch_size self = 5)"
proof -
  let ?A = "[''num_records'' \<mapsto> PInt 0, ''data_generation_task'' \<mapsto> PStr ''datagen.Accounts'']"
  let ?B = "[''num_records'' \<mapsto> PStr ''5'', ''data_generation_task'' \<mapsto> PStr ''datagen.Accounts'']"
  let ?C = "ex_options(''batch_size'' \<mapsto> PStr ''-1'')"
  have mA: "mapping_checked ex_env ?A ex_world = Inr PNone"
    and mC: "mapping_checked ex_env ?C ex_world = Inr PNone"
    by (simp_all add: mapping_checked_def dict_get_def ex_options_def)
  have a: "construct_and_call ex_env ?A ex_world
             = (Some (TaskOptionsError Batch_size_not_positive), ex_world, [])"
    using batch_size_default_and_check
            [where env = ex_env and opts = ?A and w = ex_world and v = "PInt 0" and n = 0] mA
    by auto
  have c: "construct_and_call ex_env ?C ex_world
             = (Some (TaskOptionsError Batch_size_not_positive), ex_world, [])"
    using batch_size_default_and_check
            [where env = ex_env and opts = ?C and w = ex_world and v = "PStr ''3''" and n = 3] mC
    by (auto simp: ex_options_def int_of_string_def strip_def is_space_def parse_nat_def
          is_digit_def digit_value_def)
  have "\<exists>self. init_options ex_env ?B ex_world = Inr self \<and> num_records self = 5"
    by (simp add: ex_init_eval)
  then obtain self where i: "init_options ex_env ?B ex_world = Inr self" and n: "num_records self = 5"
    by blast
  from batch_size_default_and_check
         [where env = ex_env and opts = ?B and w = ex_world and self = self] i
  have "batch_size self = num_records self" by simp
  with i n have "\<exists>self. init_options ex_env ?B ex_world = Inr self
          \<and> num_records self = 5 \<and> batch_size self = 5"
    by auto
  with a c show ?thesis by blast
qed

text \<open>
  Claim C8, as stated, fails: the code never compares \<^verbatim>\<open>num_records\<close> with zero. With a
  positive \<^verbatim>\<open>batch_size\<close>, setup accepts \<^verbatim>\<open>num_records\<close> 0 and -4; and a value that
  \<^verbatim>\<open>int()\<close> rejects makes setup fail with \<^verbatim>\<open>ValueError\<close>, which is not a configuration
  error.
\<close>

theorem num_records_zero_accepted:
  "init_options ex_env
     [''num_records'' \<mapsto> PInt 0, ''batch_size'' \<mapsto> PInt 2,
      ''data_generation_task'' \<mapsto> PStr ''datagen.Accounts''] ex_world
     = Inr (ex_self\<lparr>options := [''num_records'' \<mapsto> PInt 0, ''batch_size'' \<mapsto> PInt 2,
                                 ''data_generation_task'' \<mapsto> PStr ''datagen.Accounts''],
                    num_records := 0\<rparr>)
   \<and> init_options ex_env
     [''num_records'' \<mapsto> PStr ''-4'', ''batch_size'' \<mapsto> PInt 2,
      ''data_generation_task'' \<mapsto> PStr ''datagen.Accounts''] ex_world
     = Inr (ex_self\<lparr>options := [''num_records'' \<mapsto> PStr ''-4'', ''batch_size'' \<mapsto> PInt 2,
                                 ''data_generation_task'' \<mapsto> PStr ''datagen.Accounts''],
                    num_records := - 4\<rparr>)
   \<and> construct_and_call ex_env
     [''num_records'' \<mapsto> PStr ''many'', ''batch_size'' \<mapsto> PInt 2,
      ''data_generation_task'' \<mapsto> PStr ''datagen.Accounts''] ex_world
     = (Some ValueError, ex_world, [])
   \<and> \<not> is_TaskOptionsError ValueError"
  by (simp add: ex_init_eval construct_and_call_def is_TaskOptionsError_def)

text \<open>
  Claim C8, amended. Once the check of the mapping file has passed: a missing
  \<^verbatim>\<open>num_records\<close> makes setup fail with \<^verbatim>\<open>KeyError\<close>, and a value \<^verbatim>\<open>int()\<close> rejects makes
  it fail with the \<^verbatim>\<open>ValueError\<close> or \<^verbatim>\<open>TypeError\<close> of \<^verbatim>\<open>int()\<close>, neither of them a
  configuration error; both before any batch, with nothing invoked and the world
  unchanged. A \<^verbatim>\<open>num_records\<close> that coerces to zero or less raises the configuration error
  of the batch-size check when \<^verbatim>\<open>batch_size\<close> is not supplied. When \<^verbatim>\<open>batch_size\<close> is
  supplied, setup succeeds on it wherever it succeeds with \<^verbatim>\<open>num_records\<close> replaced by 1,
  and constructs the same task but for the number of records.
\<close>

theorem num_records_coercion:
  assumes "mapping_checked env opts w = Inr mf"
  shows "(opts ''num_records'' = None \<longrightarrow>
            construct_and_call env opts w = (Some (KeyError ''num_records''), w, []))
       \<and> (\<forall>v e. opts ''num_records'' = Some v \<longrightarrow> py_int v = Inl e \<longrightarrow>
            construct_and_call env opts w = (Some e, w, [])
            \<and> (e = ValueError \<or> e = TypeError) \<and> \<not> is_TaskOptionsError e)
       \<and> (\<forall>v n. opts ''num_records'' = Some v \<longrightarrow> py_int v = Inr n \<longrightarrow> n \<le> 0 \<longrightarrow>
            opts ''batch_size'' = None \<longrightarrow>
            construct_and_call env opts w
              = (Some (TaskOptionsError Batch_size_not_positive), w, []))
       \<and> (\<forall>v n self1. opts ''num_records'' = Some v \<longrightarrow> py_int v = Inr n \<longrightarrow> n \<le> 0 \<longrightarrow>
            opts ''batch_size'' \<noteq> None \<longrightarrow>
            init_options env (opts(''num_records'' \<mapsto> PInt 1)) w = Inr self1 \<longrightarrow>
            init_options env opts w = Inr (self1\<lparr>options := opts, num_records := n\<rparr>))"
proof (intro conjI allI impI)
  assume "opts ''num_records'' = None"
  with assms have "init_options env opts w = Inl (KeyError ''num_records'')"
    by (simp add: init_options_eq init_attributes_def)
  then show "construct_and_call env opts w = (Some (KeyError ''num_records''), w, [])"
    by (rule construct_and_call_Inl)
next
  fix v e
  assume h: "opts ''num_records'' = Some v" "py_int v = Inl e"
  with assms have "init_options env opts w = Inl e"
    by (simp add: init_options_eq init_attributes_def)
  then show "construct_and_call env opts w = (Some e, w, [])"
    by (rule construct_and_call_Inl)
  from py_int_error[OF h(2)] show "e = ValueError \<or> e = TypeError" .
  then show "\<not> is_TaskOptionsError e" by (auto simp: is_TaskOptionsError_def)
next
  fix v n
  assume "opts ''num_records'' = Some v" "py_int v = Inr n" "n \<le> 0" "opts ''batch_size'' = None"
  with assms have "init_options env opts w = Inl (TaskOptionsError Batch_size_not_positive)"
    by (simp add: init_options_eq init_attributes_def)
  then show "construct_and_call env opts w
              = (Some (TaskOptionsError Batch_size_not_positive), w, [])"
    by (rule construct_and_call_Inl)
next
  fix v n self1
  assume h: "opts ''num_records'' = Some v" "py_int v = Inr n" "n \<le> 0"
    "opts ''batch_size'' \<noteq> None"
    "init_options env (opts(''num_records'' \<mapsto> PInt 1)) w = Inr self1"
  have m: "mapping_checked env (opts(''num_records'' \<mapsto> PInt 1)) w = mapping_checked env opts w"
    by (simp add: mapping_checked_def dict_get_def)
  from h(4) obtain bv where bv: "opts ''batch_size'' = Some bv" by blast
  from h(5) show "init_options env opts w = Inr (self1\<lparr>options := opts, num_records := n\<rparr>)"
    unfolding init_options_eq init_attributes_def m
    using assms h(1,2) bv
    by (auto simp: dict_get_def split: sum.splits option.splits if_splits)
qed


theorem num_records_coercion_witness:
  "mapping_checked ex_env [''data_generation_task'' \<mapsto> PStr ''datagen.Accounts''] ex_world
     = Inr PNone
   \<and> construct_and_call ex_env [''data_generation_task'' \<mapsto> PStr ''datagen.Accounts''] ex_world
     = (Some (KeyError ''num_records''), ex_world, [])
   \<and> py_int (PStr ''three'') = Inl ValueError
   \<and> construct_and_call ex_env
        [''num_records'' \<mapsto> PStr ''three'',
         ''data_generation_task'' \<mapsto> PStr ''datagen.Accounts''] ex_world
     = (Some ValueError, ex_world, [])
   \<and> py_int (PStr '' 0 '') = Inr 0
   \<and> construct_and_call ex_env
        [''num_records'' \<mapsto> PStr '' 0 '',
         ''data_generation_task'' \<mapsto> PStr ''datagen.Accounts''] ex_world
     = (Some (TaskOptionsError Batch_size_not_positive), ex_world, [])"
proof -
  let ?A = "[''data_generation_task'' \<mapsto> PStr ''datagen.Accounts'']"
  let ?B = "[''num_records'' \<mapsto> PStr ''three'',
             ''data_generation_task'' \<mapsto> PStr ''datagen.Accounts'']"
  let ?C = "[''num_records'' \<mapsto> PStr '' 0 '',
             ''data_generation_task'' \<mapsto> PStr ''datagen.Accounts'']"
  have m: "mapping_checked ex_env ?A ex_world = Inr PNone"
    "mapping_checked ex_env ?B ex_world = Inr PNone"
    "mapping_checked ex_env ?C ex_world = Inr PNone"
    by (simp_all add: mapping_checked_def dict_get_def)
  have p: "py_int (PStr ''three'') = Inl ValueError" "py_int (PStr '' 0 '') = Inr 0"
    by (simp_all add: int_of_string_def strip_def is_space_def parse_nat_def is_digit_def
          digit_value_def)
  from num_records_coercion[OF m(1)]
  have a: "construct_and_call ex_env ?A ex_world = (Some (KeyError ''num_records''), ex_world, [])"
    by simp
  from num_records_coercion[OF m(2)] p(1)
  have b: "construct_and_call ex_env ?B ex_world = (Some ValueError, ex_world, [])"
    by simp
  from num_records_coercion[OF m(3)] p(2)
  have c: "construct_and_call ex_env ?C ex_world
             = (Some (TaskOptionsError Batch_size_not_positive), ex_world, [])"
    by simp
  from m(1) a p b c show ?thesis by simp
qed

section \<open>Reuse of a persistent store\<close>

lemma init_attributes_database_url:
  "init_attributes env opts w = Inr self \<Longrightarrow> database_url self = dict_get opts ''database_url''"
  by (auto simp: init_attributes_def split: sum.splits option.splits if_splits)

text \<open>
  Claim C3. Let \<^verbatim>\<open>database_url\<close> be supplied, let the steps of setup before the check of
  the database pass (lines 93 to 111 construct the attributes \<open>self\<close>), and let connecting
  to the store and reflecting it succeed. Then setup raises if and only if the store has
  at least one table and \<^verbatim>\<open>replace_database\<close> is not set; the exception is the
  configuration error that names the store and its tables, and it is raised with nothing
  invoked and the world unchanged. When the store is empty or \<^verbatim>\<open>replace_database\<close> is set,
  setup succeeds and constructs \<open>self\<close>.
\<close>

theorem destructive_reuse_check:
  assumes "init_attributes env opts w = Inr self"
      and "truthy (database_url self)"
      and "engine_error env (database_url self) w = None"
  shows "database_url self = dict_get opts ''database_url''
       \<and> ((\<exists>e. init_options env opts w = Inl e) \<longleftrightarrow>
            (tables w (database_url self) \<noteq> []
             \<and> \<not> truthy (dict_get opts ''replace_database'')))
       \<and> (tables w (database_url self) \<noteq> [] \<and> \<not> truthy (dict_get opts ''replace_database'')
            \<longrightarrow> construct_and_call env opts w
                  = (Some (TaskOptionsError
                             (Database_has_tables (database_url self)
                                (map fst (tables w (database_url self))))), w, []))
       \<and> (tables w (database_url self) = [] \<or> truthy (dict_get opts ''replace_database'')
            \<longrightarrow> init_options env opts w = Inr self)"
proof -
  have eq: "init_options env opts w =
          (if tables w (database_url self) \<noteq> []
              \<and> \<not> truthy (dict_get opts ''replace_database'')
           then Inl (TaskOptionsError
                       (Database_has_tables (database_url self)
                          (map fst (tables w (database_url self)))))
           else Inr self)"
    using assms by (simp add: init_options_eq)
  have "construct_and_call env opts w
          = (Some (TaskOptionsError
                     (Database_has_tables (database_url self)
                        (map fst (tables w (database_url self))))), w, [])"
    if "tables w (database_url self) \<noteq> [] \<and> \<not> truthy (dict_get opts ''replace_database'')"
    using that eq by (simp add: construct_and_call_def)
  with eq init_attributes_database_url[OF assms(1)] show ?thesis by auto
qed

theorem destructive_reuse_check_witness:
  "construct_and_call ex_env (ex_options(''database_url'' \<mapsto> PStr ''sqlite:///kept.db'')) ex_world
     = (Some (TaskOptionsError
                (Database_has_tables (PStr ''sqlite:///kept.db'') [''Contact'', ''Contact_sf_ids''])),
        ex_world, [])
   \<and> init_options ex_env
        (ex_options(''database_url'' \<mapsto> PStr ''sqlite:///kept.db'',
                    ''replace_database'' \<mapsto> PBool True)) ex_world
     = Inr (ex_self\<lparr>options := ex_options(''database_url'' \<mapsto> PStr ''sqlite:///kept.db'',
                                          ''replace_database'' \<mapsto> PBool True),
                    database_url := PStr ''sqlite:///kept.db''\<rparr>)
   \<and> tables ex_world (PStr ''sqlite:///new.db'') = []
   \<and> init_options ex_env (ex_options(''database_url'' \<mapsto> PStr ''sqlite:///new.db'')) ex_world
     = Inr (ex_self\<lparr>options := ex_options(''database_url'' \<mapsto> PStr ''sqlite:///new.db''),
                    database_url := PStr ''sqlite:///new.db''\<rparr>)"
proof -
  let ?K = "ex_options(''database_url'' \<mapsto> PStr ''sqlite:///kept.db'')"
  let ?R = "ex_options(''database_url'' \<mapsto> PStr ''sqlite:///kept.db'',
                       ''replace_database'' \<mapsto> PBool True)"
  let ?N = "ex_options(''database_url'' \<mapsto> PStr ''sqlite:///new.db'')"
  have k: "init_attributes ex_env ?K ex_world
             = Inr (ex_self\<lparr>options := ?K, database_url := PStr ''sqlite:///kept.db''\<rparr>)"
    and r: "init_attributes ex_env ?R ex_world
             = Inr (ex_self\<lparr>options := ?R, database_url := PStr ''sqlite:///kept.db''\<rparr>)"
    and n: "init_attributes ex_env ?N ex_world
             = Inr (ex_self\<lparr>options := ?N, database_url := PStr ''sqlite:///new.db''\<rparr>)"
    by (simp_all add: init_attributes_def mapping_checked_def ex_init_eval)
  have t: "truthy (database_url (ex_self\<lparr>options := ?K, database_url := PStr ''sqlite:///kept.db''\<rparr>))"
    "truthy (database_url (ex_self\<lparr>options := ?R, database_url := PStr ''sqlite:///kept.db''\<rparr>))"
    "truthy (database_url (ex_self\<lparr>options := ?N, database_url := PStr ''sqlite:///new.db''\<rparr>))"
    by simp_all
  have e: "engine_error ex_env
             (database_url (ex_self\<lparr>options := ?K, database_url := PStr ''sqlite:///kept.db''\<rparr>))
             ex_world = None"
    "engine_error ex_env
             (database_url (ex_self\<lparr>options := ?R, database_url := PStr ''sqlite:///kept.db''\<rparr>))
             ex_world = None"
    "engine_error ex_env
             (database_url (ex_self\<lparr>options := ?N, database_url := PStr ''sqlite:///new.db''\<rparr>))
             ex_world = None"
    by (simp_all add: ex_env_def)
  from destructive_reuse_check[OF k t(1) e(1)]
  have a: "construct_and_call ex_env ?K ex_world
     = (Some (TaskOptionsError
                (Database_has_tables (PStr ''sqlite:///kept.db'') [''Contact'', ''Contact_sf_ids''])),
        ex_world, [])"
    by (simp add: ex_world_def ex_options_def dict_get_def)
  from destructive_reuse_check[OF r t(2) e(2)]
  have b: "init_options ex_env ?R ex_world
             = Inr (ex_self\<lparr>options := ?R, database_url := PStr ''sqlite:///kept.db''\<rparr>)"
    by (simp add: dict_get_def)
  from destructive_reuse_check[OF n t(3) e(3)]
  have c: "init_options ex_env ?N ex_world
             = Inr (ex_self\<lparr>options := ?N, database_url := PStr ''sqlite:///new.db''\<rparr>)"
    by (simp add: ex_world_def)
  have "tables ex_world (PStr ''sqlite:///new.db'') = []" by (simp add: ex_world_def)
  with a b c show ?thesis by simp
qed

text \<open>
  Claim C10. Under the same conditions, a store that holds tables and only ID-mapping
  tables (every name ends with \<^verbatim>\<open>sf_ids\<close>) makes setup raise the configuration error
  unless \<^verbatim>\<open>replace_database\<close> is set, in which case setup succeeds. The check counts
  every reflected table, while \<^verbatim>\<open>_cleanup_object_tables\<close> on the same store drops nothing.
\<close>

theorem id_mapping_table_counts:
  assumes "init_attributes env opts w = Inr self"
      and "truthy (database_url self)"
      and "engine_error env (database_url self) w = None"
      and "tables w (database_url self) \<noteq> []"
      and "list_all (\<lambda>(n, c). endswith n ''sf_ids'') (tables w (database_url self))"
  shows "(\<not> truthy (dict_get opts ''replace_database'') \<longrightarrow>
            construct_and_call env opts w
              = (Some (TaskOptionsError
                         (Database_has_tables (database_url self)
                            (map fst (tables w (database_url self))))), w, []))
       \<and> (truthy (dict_get opts ''replace_database'') \<longrightarrow> init_options env opts w = Inr self)
       \<and> cleanup_object_tables env (database_url self, tables w (database_url self)) w
            = (None, w, [])"
proof -
  have eq: "init_options env opts w =
          (if \<not> truthy (dict_get opts ''replace_database'')
           then Inl (TaskOptionsError
                       (Database_has_tables (database_url self)
                          (map fst (tables w (database_url self)))))
           else Inr self)"
    using assms(1-4) by (simp add: init_options_eq)
  have "object_names (tables w (database_url self)) = []"
    using assms(5) by (auto simp: object_names_def list_all_iff filter_empty_conv)
  then have "cleanup_object_tables env (database_url self, tables w (database_url self)) w
            = (None, w, [])"
    by (simp add: cleanup_object_tables_eq cleaned_triv)
  with eq show ?thesis by (simp add: construct_and_call_def)
qed

theorem id_mapping_table_counts_witness:
  "tables ex_world (PStr ''sqlite:///ids.db'') = [(''Contact_sf_ids'', 7)]
   \<and> construct_and_call ex_env (ex_options(''database_url'' \<mapsto> PStr ''sqlite:///ids.db'')) ex_world
     = (Some (TaskOptionsError
                (Database_has_tables (PStr ''sqlite:///ids.db'') [''Contact_sf_ids''])),
        ex_world, [])
   \<and> cleanup_object_tables ex_env
        (PStr ''sqlite:///ids.db'', tables ex_world (PStr ''sqlite:///ids.db'')) ex_world
     = (None, ex_world, [])"
proof -
  let ?I = "ex_options(''database_url'' \<mapsto> PStr ''sqlite:///ids.db'')"
  let ?S = "ex_self\<lparr>options := ?I, database_url := PStr ''sqlite:///ids.db''\<rparr>"
  have i: "init_attributes ex_env ?I ex_world = Inr ?S"
    by (simp add: init_attributes_def mapping_checked_def ex_init_eval)
  have t: "truthy (database_url ?S)" by simp
  have e: "engine_error ex_env (database_url ?S) ex_world = None" by (simp add: ex_env_def)
  have n: "tables ex_world (database_url ?S) \<noteq> []" by (simp add: ex_world_def)
  have l: "list_all (\<lambda>(n, c). endswith n ''sf_ids'') (tables ex_world (database_url ?S))"
    by (simp add: ex_world_def endswith_def)
  have tb: "tables ex_world (PStr ''sqlite:///ids.db'') = [(''Contact_sf_ids'', 7)]"
    by (simp add: ex_world_def)
  from id_mapping_table_counts[OF i t e n l] tb show ?thesis
    by (simp add: ex_options_def dict_get_def)
qed

section \<open>The batches of a run\<close>

lemma generation_calls_simps [simp]:
  "generation_calls [] = []"
  "generation_calls (Datagen go wg # t)
     = (dict_get go ''num_records'', dict_get go ''current_batch_number'') # generation_calls t"
  "generation_calls (Dataload lo wl # t) = generation_calls t"
  "generation_calls (DropAll u names # t) = generation_calls t"
  by (simp_all add: generation_calls_def)

lemma load_calls_simps [simp]:
  "load_calls [] = []"
  "load_calls (Datagen go wg # t) = load_calls t"
  "load_calls (Dataload lo wl # t)
     = (dict_get lo ''num_records'', dict_get lo ''current_batch_number'') # load_calls t"
  "load_calls (DropAll u names # t) = load_calls t"
  by (simp_all add: load_calls_def)

lemma generation_calls_append [simp]:
  "generation_calls (a @ b) = generation_calls a @ generation_calls b"
  by (simp add: generation_calls_def)

lemma load_calls_append [simp]: "load_calls (a @ b) = load_calls a @ load_calls b"
  by (simp add: load_calls_def)

lemma dict_get_batch_options [simp]:
  "dict_get (batch_options o' mf u s i td name) ''num_records'' = PInt s"
  "dict_get (batch_options o' mf u s i td name) ''current_batch_number'' = PInt i"
  "dict_get ((batch_options o' mf u s i td name)(''mapping'' \<mapsto> m)) ''num_records'' = PInt s"
  "dict_get ((batch_options o' mf u s i td name)(''mapping'' \<mapsto> m)) ''current_batch_number''
     = PInt i"
  by (simp_all add: batch_options_def dict_get_def)

lemma generate_batch_calls:
  assumes "generate_batch env self du td mf s i w = (r, w', t)"
  shows "(generation_calls t = [] \<or> generation_calls t = [(PInt s, PInt i)])
       \<and> (r = None \<longrightarrow> generation_calls t = [(PInt s, PInt i)]
                        \<and> load_calls t = [(PInt s, PInt i)])"
proof (cases "resolve_url env du td")
  case (Inl e)
  then have "generate_batch env self du td mf s i w = (Some e, w, [])"
    by (simp add: generate_batch_eq)
  with assms have "(r, w', t) = (Some e, w, [])" by (rule trans[OF sym])
  then have "r = Some e" "t = []" by blast+
  then show ?thesis by simp
next
  case (Inr u)
  show ?thesis
  proof (cases "engine_error env u w")
    case ee: (Some e)
    with Inr have "generate_batch env self du td mf s i w = (Some e, w, [])"
      by (simp add: generate_batch_eq)
    with assms have "(r, w', t) = (Some e, w, [])" by (rule trans[OF sym])
  then have "r = Some e" "t = []" by blast+
    then show ?thesis by simp
  next
    case None
    let ?names = "object_names (tables w u)"
    let ?drops = "if ?names = [] then [] else [DropAll u ?names]"
    have d: "generation_calls ?drops = []" "load_calls ?drops = []"
      by simp_all
    show ?thesis
    proof (cases "if ?names = [] then None else drop_error env u ?names w")
      case de: (Some e)
      have "generate_batch env self du td mf s i w = (Some e, w, ?drops)"
        by (simp only: generate_batch_eq Inr None de Let_def sum.case option.case)
      with assms have "(r, w', t) = (Some e, w, ?drops)" by (rule trans[OF sym])
      then have "r = Some e" "t = ?drops" by blast+
      with d show ?thesis by simp
    next
      case nd: None
      let ?name = "mkstemp_name env ''_mapping.yml'' (cleaned w u)"
      let ?wg = "(cleaned w u)\<lparr>files := insert ?name (files (cleaned w u))\<rparr>"
      let ?go = "batch_options (options self) mf u s i td ?name"
      obtain rg wl where gen: "data_generation_task self ?go ?wg = (rg, wl)"
        by (cases "data_generation_task self ?go ?wg")
      show ?thesis
      proof (cases rg)
        case ge: (Some e)
        have "generate_batch env self du td mf s i w
                = (Some e, wl\<lparr>files := files wl - {?name}\<rparr>, ?drops @ [Datagen ?go ?wg])"
          by (simp only: generate_batch_eq Inr None nd gen ge Let_def sum.case option.case
                prod.case)
        with assms
        have "(r, w', t)
                = (Some e, wl\<lparr>files := files wl - {?name}\<rparr>, ?drops @ [Datagen ?go ?wg])"
          by (rule trans[OF sym])
        then have "r = Some e" "t = ?drops @ [Datagen ?go ?wg]" by blast+
        with d show ?thesis by simp
      next
        case ng: None
        let ?lo = "if \<not> truthy mf then ?go(''mapping'' \<mapsto> PStr ?name) else ?go"
        obtain rl wl' where load: "load_data env ?lo wl = (rl, wl')"
          by (cases "load_data env ?lo wl")
        have lo: "dict_get ?lo ''num_records'' = PInt s"
          "dict_get ?lo ''current_batch_number'' = PInt i"
          by simp_all
        have "generate_batch env self du td mf s i w
                = (rl, wl'\<lparr>files := files wl' - {?name}\<rparr>,
                   ?drops @ [Datagen ?go ?wg, Dataload ?lo wl])"
          by (simp only: generate_batch_eq Inr None nd gen ng load Let_def sum.case option.case
                prod.case)
        with assms
        have "(r, w', t)
                = (rl, wl'\<lparr>files := files wl' - {?name}\<rparr>,
                   ?drops @ [Datagen ?go ?wg, Dataload ?lo wl])"
          by (rule trans[OF sym])
        then have "t = ?drops @ [Datagen ?go ?wg, Dataload ?lo wl]" by blast
        with d lo show ?thesis by simp
      qed
    qed
  qed
qed

lemma batch_loop_calls:
  assumes "batch_loop env self tempdir bs w = (r, w', t)"
  shows "(\<exists>k \<le> length bs.
            generation_calls t = map (\<lambda>(s, i). (PInt s, PInt i)) (take k bs))
       \<and> (r = None \<longrightarrow> generation_calls t = map (\<lambda>(s, i). (PInt s, PInt i)) bs
                        \<and> load_calls t = map (\<lambda>(s, i). (PInt s, PInt i)) bs)"
  using assms
proof (induction bs arbitrary: w r w' t)
  case Nil
  then show ?case by (simp add: generation_calls_def load_calls_def)
next
  case (Cons b bs)
  let ?f = "\<lambda>(s, i). (PInt s, PInt i)"
  obtain s i where b: "b = (s, i)" by (cases b)
  obtain r1 w1 t1 where
    g: "generate_batch env self (database_url self)
          (if truthy (debug_dir self) then debug_dir self else PStr tempdir)
          (mapping_file self) s i w = (r1, w1, t1)"
    by (metis prod_cases3)
  note c = generate_batch_calls[OF g]
  show ?case
  proof (cases r1)
    case (Some e)
    with Cons.prems g b have t: "t = t1" and r: "r = Some e" by simp_all
    from c have "generation_calls t1 = map ?f (take 0 (b # bs))
                 \<or> generation_calls t1 = map ?f (take 1 (b # bs))"
      by (auto simp: b)
    then have "\<exists>k \<le> length (b # bs). generation_calls t1 = map ?f (take k (b # bs))"
      by (metis One_nat_def Suc_leI le0 length_Cons zero_less_Suc)
    with t r show ?thesis by simp
  next
    case None
    with Cons.prems g b obtain t2 where
      rest: "batch_loop env self tempdir bs w1 = (r, w', t2)" and t: "t = t1 @ t2"
      by (auto split: prod.splits)
    from c None have c1: "generation_calls t1 = [?f b]" "load_calls t1 = [?f b]"
      by (simp_all add: b)
    from Cons.IH[OF rest] obtain k where
      k: "k \<le> length bs" "generation_calls t2 = map ?f (take k bs)" and
      full: "r = None \<longrightarrow> generation_calls t2 = map ?f bs \<and> load_calls t2 = map ?f bs"
      by blast
    have "generation_calls t = map ?f (take (Suc k) (b # bs))"
      using c1 k(2) t by simp
    with k(1) have "\<exists>k \<le> length (b # bs). generation_calls t = map ?f (take k (b # bs))"
      by (metis Suc_le_mono length_Cons)
    with full c1 t show ?thesis by simp
  qed
qed

text \<open>
  Claim C1. For a total \<open>N \<ge> 0\<close> and a batch size \<open>B > 0\<close>, the loop of \<^verbatim>\<open>_run_task\<close> runs
  over the batches \<open>generate_batches N B\<close>; their sizes sum to \<open>N\<close>, each size is positive
  and at most \<open>B\<close>, every size but the last is \<open>B\<close>, and the indices are 0, 1, 2, ... in
  this order. The loop performs these batches and no others: in every run the
  invocations of the generation step carry, one for one and in order, the size and the
  index of the batches of an initial segment of this list, and in a run that ends
  without an exception the generation step and the load step are each invoked exactly
  once per batch, in order, with the size and the index of that batch. For \<open>N = 0\<close> there
  is no batch: the run ends without an error and its trace is empty, so neither the
  generation step nor the load step was invoked; all it does is create and remove the
  temporary directory.
\<close>

theorem run_task_batches_partition:
  assumes "0 \<le> N" and "0 < B" and "num_records self = N" and "batch_size self = B"
  shows "run_task env self w =
           temporary_directory env
             (\<lambda>tempdir. batch_loop env self tempdir (generate_batches N B)) w
       \<and> sum_list (map fst (generate_batches N B)) = N
       \<and> (\<forall>s \<in> set (map fst (generate_batches N B)). 0 < s \<and> s \<le> B)
       \<and> (\<forall>s \<in> set (butlast (map fst (generate_batches N B))). s = B)
       \<and> map snd (generate_batches N B) = map int [0..<length (generate_batches N B)]
       \<and> (\<exists>k \<le> length (generate_batches N B).
             generation_calls (snd (snd (run_task env self w)))
               = map (\<lambda>(s, i). (PInt s, PInt i)) (take k (generate_batches N B)))
       \<and> (fst (run_task env self w) = None \<longrightarrow>
             generation_calls (snd (snd (run_task env self w)))
               = map (\<lambda>(s, i). (PInt s, PInt i)) (generate_batches N B)
             \<and> load_calls (snd (snd (run_task env self w)))
               = map (\<lambda>(s, i). (PInt s, PInt i)) (generate_batches N B))
       \<and> (N = 0 \<longrightarrow> generate_batches N B = []
             \<and> run_task env self w
                 = (None, rmtree env (fst (mkdtemp env w)) (snd (mkdtemp env w)), []))"
proof -
  have "run_task env self w =
          temporary_directory env
            (\<lambda>tempdir. batch_loop env self tempdir (generate_batches N B)) w"
    using assms(3,4) by (simp add: run_task_def)
  moreover have "sum_list (map fst (generate_batches N B)) = N"
    using assms(1,2) by (rule sum_generate_batches)
  moreover have "\<forall>s \<in> set (map fst (generate_batches N B)). 0 < s \<and> s \<le> B"
    using assms(2) sizes_generate_batches by blast
  moreover have "\<forall>s \<in> set (butlast (map fst (generate_batches N B))). s = B"
    using butlast_generate_batches by blast
  moreover have "map snd (generate_batches N B) = map int [0..<length (generate_batches N B)]"
    by (rule map_snd_generate_batches)
  moreover
  obtain r w' t where
    loop: "batch_loop env self (fst (mkdtemp env w)) (generate_batches N B)
             (snd (mkdtemp env w)) = (r, w', t)"
    by (metis prod_cases3)
  have run: "fst (run_task env self w) = r" "snd (snd (run_task env self w)) = t"
    using loop assms(3,4) by (simp_all add: run_task_eq)
  note calls = batch_loop_calls[OF loop]
  have "\<exists>k \<le> length (generate_batches N B).
             generation_calls (snd (snd (run_task env self w)))
               = map (\<lambda>(s, i). (PInt s, PInt i)) (take k (generate_batches N B))"
    using calls run(2) by simp
  moreover have "fst (run_task env self w) = None \<longrightarrow>
             generation_calls (snd (snd (run_task env self w)))
               = map (\<lambda>(s, i). (PInt s, PInt i)) (generate_batches N B)
             \<and> load_calls (snd (snd (run_task env self w)))
               = map (\<lambda>(s, i). (PInt s, PInt i)) (generate_batches N B)"
    using calls run by simp
  moreover have "N = 0 \<longrightarrow> generate_batches N B = []
             \<and> run_task env self w
                 = (None, rmtree env (fst (mkdtemp env w)) (snd (mkdtemp env w)), [])"
    using assms(3,4) by (simp add: generate_batches_zero run_task_eq)
  ultimately show ?thesis by blast
qed

theorem run_task_batches_partition_witness:
  "(0::int) \<le> 3 \<and> (0::int) < 2 \<and> num_records ex_self = 3 \<and> batch_size ex_self = 2
   \<and> generate_batches 3 2 = [(2, 0), (1, 1)]
   \<and> sum_list (map fst (generate_batches 3 2)) = 3
   \<and> butlast (map fst (generate_batches 3 2)) = [2]
   \<and> map snd (generate_batches 3 2) = map int [0..<length (generate_batches 3 2)]
   \<and> fst (run_task ex_env ex_self ex_world) = None
   \<and> generation_calls (snd (snd (run_task ex_env ex_self ex_world)))
       = [(PInt 2, PInt 0), (PInt 1, PInt 1)]
   \<and> load_calls (snd (snd (run_task ex_env ex_self ex_world)))
       = [(PInt 2, PInt 0), (PInt 1, PInt 1)]
   \<and> num_records (ex_self\<lparr>num_records := 0\<rparr>) = 0
   \<and> generate_batches 0 2 = []
   \<and> fst (run_task ex_env (ex_self\<lparr>num_records := 0\<rparr>) ex_world) = None
   \<and> snd (snd (run_task ex_env (ex_self\<lparr>num_records := 0\<rparr>) ex_world)) = []"
proof -
  have h: "(0::int) \<le> 3" "(0::int) < 2" "num_records ex_self = 3" "batch_size ex_self = 2"
    by (simp_all add: ex_self_def)
  have z: "(0::int) \<le> 0" "(0::int) < 2" "num_records (ex_self\<lparr>num_records := 0\<rparr>) = 0"
    "batch_size (ex_self\<lparr>num_records := 0\<rparr>) = 2"
    by (simp_all add: ex_self_def)
  have ok: "fst (run_task ex_env ex_self ex_world) = None"
    by (simp add: run_task_eq ex_generate_batches ex_eval)
  note three = run_task_batches_partition [OF h, of ex_env ex_world]
  note zero = run_task_batches_partition [OF z, of ex_env ex_world]
  note three_calls = three[THEN conjunct2, THEN conjunct2, THEN conjunct2, THEN conjunct2,
                           THEN conjunct2, THEN conjunct2, THEN conjunct1]
  note zero_run = zero[THEN conjunct2, THEN conjunct2, THEN conjunct2, THEN conjunct2,
                       THEN conjunct2, THEN conjunct2, THEN conjunct2]
  from three_calls ok have calls:
    "generation_calls (snd (snd (run_task ex_env ex_self ex_world)))
       = [(PInt 2, PInt 0), (PInt 1, PInt 1)]"
    "load_calls (snd (snd (run_task ex_env ex_self ex_world)))
       = [(PInt 2, PInt 0), (PInt 1, PInt 1)]"
    by (simp_all add: ex_generate_batches)
  from zero_run have none:
    "fst (run_task ex_env (ex_self\<lparr>num_records := 0\<rparr>) ex_world) = None"
    "snd (snd (run_task ex_env (ex_self\<lparr>num_records := 0\<rparr>) ex_world)) = []"
    by simp_all
  have bl: "butlast (map fst (generate_batches 3 2)) = [2]"
    by (simp add: ex_generate_batches)
  note part = three[THEN conjunct2, THEN conjunct1]
    three[THEN conjunct2, THEN conjunct2, THEN conjunct2, THEN conjunct2, THEN conjunct1]
  show ?thesis
    by (intro conjI)
       (fact h ok calls none part ex_generate_batches z(3) generate_batches_zero[of 2] bl)+
qed

end
